theory Spec2Isabelle
  imports Main
begin

section \<open>Data model\<close>

text \<open>
  The types of \<^verbatim>\<open>src/src/main.ts\<close>. A JavaScript \<^verbatim>\<open>number\<close> that holds a threshold, a
  point value or a line number is modelled as an \<open>int\<close> (the values the YAML configuration
  and the mutation report carry); the two special values the code can produce,
  \<^verbatim>\<open>NaN\<close> from \<^verbatim>\<open>parseInt\<close> and \<^verbatim>\<open>-Infinity\<close> from \<^verbatim>\<open>Math.max()\<close>, are modelled
  explicitly where they arise, and so is the rounding of \<^verbatim>\<open>parseInt\<close> to a double. Strings
  are \<open>char list\<close>.
\<close>

record BreakPoint =
  minimumMutantsDetected :: int
  pointsToAward :: int

record GradedUnit =
  name :: string
  breakPoints :: "BreakPoint list"
  locations :: "string list"

text \<open>
  \<^verbatim>\<open>GradingConfig\<close> as \<^verbatim>\<open>src/src/main.ts\<close> declares it. The copy of the grader in
  \<^verbatim>\<open>src/unnamed/part_001\<close> declares two more fields, \<^verbatim>\<open>expectedTSIgnore\<close> and
  \<^verbatim>\<open>expectedESlintIgnore\<close>, which neither \<^verbatim>\<open>validateConfig\<close> nor the grading functions read.
\<close>

record GradingConfig =
  gradedUnits :: "GradedUnit list"
  submissionFiles :: "(string \<times> string) list"

text \<open>The result of \<^verbatim>\<open>Math.max\<close>: a number, or \<^verbatim>\<open>-Infinity\<close> when there is no argument.\<close>

datatype number = NegInfinity | Num int

record TestResult =
  score :: int
  max_score :: number
  name :: string
  "output" :: string

datatype visibility = hidden | after_due_date | after_published | visible

record GraderOutput =
  "output" :: "string option"
  stdout_visibility :: visibility
  tests :: "TestResult list option"
  score :: "int option"

text \<open>
  Modelled from the spec: the declarations of \<^verbatim>\<open>./mutantschema\<close> (\<^verbatim>\<open>MutantResult\<close>,
  \<^verbatim>\<open>MutationTestResult\<close>) are imported by \<^verbatim>\<open>main.ts\<close> and are not part of the sources.
  The report is \<^verbatim>\<open>{ files: { [filePath]: { mutants: MutantResult[] } } }\<close> and each mutant
  has a \<^verbatim>\<open>status\<close> string and a \<^verbatim>\<open>location.start.line\<close> number. The \<^verbatim>\<open>files\<close> object is an
  association list in insertion order; a JavaScript object has each key once.
\<close>

record Position =
  line :: int
  column :: int

record Location =
  start :: Position

record MutantResult =
  status :: string
  location :: Location

record FileResult =
  mutants :: "MutantResult list"

record MutationTestResult =
  files :: "(string \<times> FileResult) list"

text \<open>
  The two \<^verbatim>\<open>throw new Error(...)\<close> of the source, under the names the specification gives
  them, and the \<^verbatim>\<open>TypeError\<close> the runtime raises when a property of \<^verbatim>\<open>undefined\<close> is read.
  \<open>InvalidBreakpointOrdering\<close> carries the name of the unit that the message quotes.
\<close>

datatype error =
    UnsupportedLocationFormat
  | InvalidBreakpointOrdering string
  | TypeError

section \<open>JavaScript built-ins used by the code\<close>

text \<open>\<^verbatim>\<open>xs[i]\<close>: the element, or \<^verbatim>\<open>undefined\<close> (\<open>None\<close>) when \<open>i\<close> is out of range.\<close>

definition at_index :: "'a list \<Rightarrow> int \<Rightarrow> 'a option" where
  "at_index xs i = (if 0 \<le> i \<and> i < int (length xs) then Some (xs ! nat i) else None)"

text \<open>\<^verbatim>\<open>Math.max(...xs)\<close>.\<close>

fun Math_max :: "int list \<Rightarrow> number" where
  "Math_max [] = NegInfinity"
| "Math_max (x # xs) = (case Math_max xs of NegInfinity \<Rightarrow> Num x | Num m \<Rightarrow> Num (max x m))"

text \<open>\<^verbatim>\<open>Array.prototype.map\<close> with a callback that may throw: the first exception ends it.\<close>

fun map_throwing :: "('a \<Rightarrow> error + 'b) \<Rightarrow> 'a list \<Rightarrow> error + 'b list" where
  "map_throwing f [] = Inr []"
| "map_throwing f (x # xs) =
     (case f x of
        Inl e \<Rightarrow> Inl e
      | Inr y \<Rightarrow> (case map_throwing f xs of Inl e \<Rightarrow> Inl e | Inr ys \<Rightarrow> Inr (y # ys)))"

text \<open>
  \<^verbatim>\<open>String.prototype.includes\<close>: \<open>str_includes s sub\<close> is \<^verbatim>\<open>s.includes(sub)\<close>, true when
  \<open>sub\<close> occurs in \<open>s\<close> as a contiguous run of characters (the empty string occurs everywhere).
\<close>

fun str_includes :: "string \<Rightarrow> string \<Rightarrow> bool" where
  "str_includes [] sub = (sub = [])"
| "str_includes (c # cs) sub = (take (length sub) (c # cs) = sub \<or> str_includes cs sub)"

text \<open>
  \<^verbatim>\<open>String.prototype.split\<close> with a separator of one character: the pieces between the
  separators, in order; a string without the separator is the only piece.
\<close>

fun str_split :: "char \<Rightarrow> string \<Rightarrow> string list" where
  "str_split sep [] = [[]]"
| "str_split sep (c # cs) =
     (if c = sep then [] # str_split sep cs
      else (case str_split sep cs of
              [] \<Rightarrow> [[c]]
            | p # ps \<Rightarrow> (c # p) # ps))"

text \<open>
  \<^verbatim>\<open>parseInt(s)\<close> without a radix, after ECMAScript: leading white space is skipped, then an
  optional sign, then an optional \<^verbatim>\<open>0x\<close>/\<^verbatim>\<open>0X\<close> that switches to radix 16, then the longest run
  of digits of the radix; no digit gives \<^verbatim>\<open>NaN\<close>. Characters are the code units below 256.
  The result is a double: the integer that the digits denote, rounded to the nearest
  integer with 53 significant bits (ties to the even one), and an infinity when the
  rounded value reaches \<open>2 ^ 1024\<close>. Every integer below \<open>2 ^ 53 = 9007199254740992\<close> is its
  own double. For a larger \<open>v\<close>, \<open>exponentOf v\<close> is the number of low bits that do not fit,
  \<open>q\<close> the 53 leading bits and \<open>r\<close> the part that is rounded away; the rounded value
  \<open>q' * 2 ^ e\<close> reaches \<open>2 ^ 1024\<close> when \<open>e \<ge> 972\<close>, or when \<open>e = 971\<close> and \<open>q'\<close> was rounded up
  to \<open>2 ^ 53\<close>.
\<close>

datatype parsed = NaN | NegativeInfinity | PositiveInfinity | Finite int

fun exponentOf :: "int \<Rightarrow> nat" where
  "exponentOf v = (if v < 9007199254740992 then 0 else Suc (exponentOf (v div 2)))"

declare exponentOf.simps [simp del]

definition toDouble :: "int \<Rightarrow> parsed" where
  "toDouble v =
     (if v < 9007199254740992 then Finite v
      else
        let e = exponentOf v;
            q = v div 2 ^ e;
            r = v mod 2 ^ e;
            half = 2 ^ (e - 1);
            q' = (if half < r \<or> (r = half \<and> odd q) then q + 1 else q)
        in if 972 \<le> e \<or> (e = 971 \<and> q' = 9007199254740992) then PositiveInfinity
           else Finite (q' * 2 ^ e))"

definition negate :: "parsed \<Rightarrow> parsed" where
  "negate x =
     (case x of
        NaN \<Rightarrow> NaN
      | NegativeInfinity \<Rightarrow> PositiveInfinity
      | PositiveInfinity \<Rightarrow> NegativeInfinity
      | Finite i \<Rightarrow> Finite (- i))"

definition isWhiteSpace :: "char \<Rightarrow> bool" where
  "isWhiteSpace c = (of_char c \<in> {9, 10, 11, 12, 13, 32, 160 :: nat})"

definition digitOf :: "nat \<Rightarrow> char \<Rightarrow> nat option" where
  "digitOf radix c =
     (let k = (of_char c :: nat);
          v = (if 48 \<le> k \<and> k \<le> 57 then Some (k - 48)
               else if 97 \<le> k \<and> k \<le> 122 then Some (k - 87)
               else if 65 \<le> k \<and> k \<le> 90 then Some (k - 55)
               else None)
      in case v of None \<Rightarrow> None | Some d \<Rightarrow> if d < radix then Some d else None)"

definition digitsValue :: "nat \<Rightarrow> string \<Rightarrow> int" where
  "digitsValue radix z =
     foldl (\<lambda>acc c. acc * int radix + (case digitOf radix c of Some d \<Rightarrow> int d | None \<Rightarrow> 0)) 0 z"

definition parseInt :: "string \<Rightarrow> parsed" where
  "parseInt s =
     (let s1 = dropWhile isWhiteSpace s;
          sgn = (case s1 of c # _ \<Rightarrow> if c = CHR ''-'' then - 1 else 1 | [] \<Rightarrow> (1::int));
          s2 = (case s1 of c # r \<Rightarrow> if c = CHR ''-'' \<or> c = CHR ''+'' then r else s1 | [] \<Rightarrow> s1);
          hex = (take 2 s2 = ''0x'' \<or> take 2 s2 = ''0X'');
          radix = (if hex then 16 else 10);
          s3 = (if hex then drop 2 s2 else s2);
          z = takeWhile (\<lambda>c. digitOf radix c \<noteq> None) s3
      in if z = [] then NaN
         else if sgn < 0 then negate (toDouble (digitsValue radix z))
         else toDouble (digitsValue radix z))"

text \<open>
  A number inside a template literal: the decimal digits of a non-negative integer, with a
  leading \<^verbatim>\<open>-\<close> for a negative one (numbers below \<open>10 ^ 21\<close> in absolute value).
\<close>

definition digitChar :: "nat \<Rightarrow> char" where
  "digitChar d = char_of (48 + d)"

fun string_of_nat :: "nat \<Rightarrow> string" where
  "string_of_nat n =
     (if n < 10 then [digitChar n] else string_of_nat (n div 10) @ [digitChar (n mod 10)])"

declare string_of_nat.simps [simp del]

definition string_of_int :: "int \<Rightarrow> string" where
  "string_of_int i = (if i < 0 then CHR ''-'' # string_of_nat (nat (- i)) else string_of_nat (nat i))"

section \<open>extractLocationInformation\<close>

record LocationRange =
  fileName :: string
  startLine :: parsed
  endLine :: parsed

text \<open>
  \<^verbatim>\<open>parts[0]\<close> always exists. \<^verbatim>\<open>parts[1]\<close> is \<^verbatim>\<open>undefined\<close> when the string has no \<^verbatim>\<open>:\<close>, and
  \<^verbatim>\<open>parts[1].includes\<close> then raises a \<^verbatim>\<open>TypeError\<close>. \<^verbatim>\<open>parseInt(undefined)\<close> is \<^verbatim>\<open>NaN\<close>.
\<close>

definition parseInt_at :: "string list \<Rightarrow> int \<Rightarrow> parsed" where
  "parseInt_at xs i = (case at_index xs i of None \<Rightarrow> NaN | Some s \<Rightarrow> parseInt s)"

definition extractLocationInformation :: "string \<Rightarrow> error + LocationRange" where
  "extractLocationInformation loc =
     (let parts = str_split CHR '':'' loc in
      if length parts > 2 then Inl UnsupportedLocationFormat
      else
        let fileName = (case at_index parts 0 of Some f \<Rightarrow> f | None \<Rightarrow> []) in
        case at_index parts 1 of
          None \<Rightarrow> Inl TypeError
        | Some p1 \<Rightarrow>
            if str_includes p1 ''-'' then
              let lineParts = str_split CHR ''-'' p1 in
              Inr \<lparr>fileName = fileName,
                   startLine = parseInt_at lineParts 0,
                   endLine = parseInt_at lineParts 1\<rparr>
            else
              let startLine = parseInt p1 in
              Inr \<lparr>fileName = fileName, startLine = startLine, endLine = startLine\<rparr>)"

section \<open>validateConfig\<close>

text \<open>
  The inner loop of \<^verbatim>\<open>validateConfig\<close>, with \<open>lastBP\<close> as the loop variable; \<open>True\<close> when the
  loop reaches a breakpoint with \<^verbatim>\<open>minimumMutantsDetected <= lastBP\<close> and throws.
\<close>

fun breakPointsThrow :: "int \<Rightarrow> BreakPoint list \<Rightarrow> bool" where
  "breakPointsThrow lastBP [] = False"
| "breakPointsThrow lastBP (breakPoint # rest) =
     (if minimumMutantsDetected breakPoint \<le> lastBP then True
      else breakPointsThrow (minimumMutantsDetected breakPoint) rest)"

fun validateUnits :: "GradedUnit list \<Rightarrow> error + unit" where
  "validateUnits [] = Inr ()"
| "validateUnits (gradedUnit # rest) =
     (if breakPointsThrow (- 1) (breakPoints gradedUnit)
      then Inl (InvalidBreakpointOrdering (GradedUnit.name gradedUnit))
      else validateUnits rest)"

definition validateConfig :: "GradingConfig \<Rightarrow> error + unit" where
  "validateConfig config = validateUnits (gradedUnits config)"

section \<open>gradeMutationUnit\<close>

text \<open>
  Comparing a parsed line with a mutant's line, \<^verbatim>\<open>a <= b\<close> and \<^verbatim>\<open>a >= b\<close>: every comparison
  with \<^verbatim>\<open>NaN\<close> is false, and an infinity lies beyond every line.
\<close>

definition num_le :: "parsed \<Rightarrow> int \<Rightarrow> bool" where
  "num_le a b =
     (case a of
        NaN \<Rightarrow> False
      | NegativeInfinity \<Rightarrow> True
      | PositiveInfinity \<Rightarrow> False
      | Finite x \<Rightarrow> x \<le> b)"

definition num_ge :: "parsed \<Rightarrow> int \<Rightarrow> bool" where
  "num_ge a b =
     (case a of
        NaN \<Rightarrow> False
      | NegativeInfinity \<Rightarrow> False
      | PositiveInfinity \<Rightarrow> True
      | Finite x \<Rightarrow> x \<ge> b)"

text \<open>The two closures of \<^verbatim>\<open>gradeMutationUnit\<close>, with \<open>gradedLocations\<close> as a parameter.\<close>

definition mutatedFileContainsAGradedUnit :: "LocationRange list \<Rightarrow> string \<Rightarrow> bool" where
  "mutatedFileContainsAGradedUnit gradedLocations file =
     (find (\<lambda>mutatedLocation. str_includes file (fileName mutatedLocation)) gradedLocations
        \<noteq> None)"

definition mutantContainsThisGradedUnit :: "LocationRange list \<Rightarrow> MutantResult \<Rightarrow> bool" where
  "mutantContainsThisGradedUnit gradedLocations mutant =
     (find (\<lambda>mutatedLocation.
              num_le (startLine mutatedLocation) (line (start (location mutant))) \<and>
              num_ge (endLine mutatedLocation) (line (start (location mutant))))
        gradedLocations \<noteq> None)"

text \<open>
  \<^verbatim>\<open>Object.keys(o)\<close> and \<^verbatim>\<open>o[key]\<close> on the \<^verbatim>\<open>files\<close> object. The lookup is only made at
  a key that \<^verbatim>\<open>Object.keys\<close> returned, where it is defined (lemma \<open>Object_get_keys\<close>).
\<close>

definition Object_keys :: "(string \<times> 'a) list \<Rightarrow> string list" where
  "Object_keys obj = map fst obj"

definition Object_get :: "(string \<times> 'a) list \<Rightarrow> string \<Rightarrow> 'a" where
  "Object_get obj key = the (map_of obj key)"

text \<open>The inner \<^verbatim>\<open>reduce\<close>: the mutants of one file that are in range and \<^verbatim>\<open>Killed\<close>.\<close>

definition mutantsFoundInFile :: "LocationRange list \<Rightarrow> FileResult \<Rightarrow> nat" where
  "mutantsFoundInFile gradedLocations fileResult =
     foldl (\<lambda>mutantsFoundThisFile mutant.
              if status mutant = ''Killed'' then mutantsFoundThisFile + 1
              else mutantsFoundThisFile)
       0 (filter (mutantContainsThisGradedUnit gradedLocations) (mutants fileResult))"

definition mutantsDetected :: "LocationRange list \<Rightarrow> MutationTestResult \<Rightarrow> nat" where
  "mutantsDetected gradedLocations mutationResults =
     foldl (\<lambda>mutantsFoundSoFar file.
              mutantsFoundSoFar +
              mutantsFoundInFile gradedLocations (Object_get (files mutationResults) file))
       0 (filter (mutatedFileContainsAGradedUnit gradedLocations)
            (Object_keys (files mutationResults)))"

definition summary :: "nat \<Rightarrow> int \<Rightarrow> string" where
  "summary detected maxMutantsToFind =
     ''Faults detected: '' @ string_of_nat detected @ ''/'' @ string_of_int maxMutantsToFind"

text \<open>
  \<^verbatim>\<open>gradeMutationUnit\<close> of \<^verbatim>\<open>src/src/main.ts\<close>. \<^verbatim>\<open>config.breakPoints.reverse()\<close> reverses the
  array of the unit in place, so the function returns the unit as it leaves it next to the
  \<^verbatim>\<open>TestResult\<close>; the reads after the scan see the reversed array. Reading
  \<^verbatim>\<open>minimumMutantsDetected\<close> of an element that does not exist raises a \<^verbatim>\<open>TypeError\<close>.
\<close>

definition gradeMutationUnit ::
  "GradedUnit \<Rightarrow> MutationTestResult \<Rightarrow> error + (TestResult \<times> GradedUnit)" where
  "gradeMutationUnit config mutationResults =
     (let ret = \<lparr>TestResult.score = 0,
                 max_score = Math_max (map pointsToAward (breakPoints config)),
                 TestResult.name = GradedUnit.name config,
                 TestResult.output = []\<rparr>
      in case map_throwing extractLocationInformation (locations config) of
           Inl e \<Rightarrow> Inl e
         | Inr gradedLocations \<Rightarrow>
            (let detected = mutantsDetected gradedLocations mutationResults;
                 config = config\<lparr>breakPoints := rev (breakPoints config)\<rparr>;
                 breakPointHit =
                   find (\<lambda>bp. minimumMutantsDetected bp \<le> int detected) (breakPoints config);
                 ret = (case breakPointHit of
                          Some bp \<Rightarrow> ret\<lparr>TestResult.score := pointsToAward bp\<rparr>
                        | None \<Rightarrow> ret\<lparr>TestResult.score := 0\<rparr>)
             in case at_index (breakPoints config) (int (length (breakPoints config)) - 1) of
                  None \<Rightarrow> Inl TypeError
                | Some lastBreakPoint \<Rightarrow>
                    Inr (ret\<lparr>TestResult.output :=
                               summary detected (minimumMutantsDetected lastBreakPoint)\<rparr>,
                         config)))"

text \<open>
  \<^verbatim>\<open>gradeMutationUnit\<close> of \<^verbatim>\<open>src/unnamed/part_001\<close>, the other copy of the grader in the
  repository: the same text, except that the scan runs over
  \<^verbatim>\<open>config.breakPoints.concat([]).reverse()\<close>, a reversed copy, and the unit is left alone.
\<close>

definition gradeMutationUnit_copy ::
  "GradedUnit \<Rightarrow> MutationTestResult \<Rightarrow> error + (TestResult \<times> GradedUnit)" where
  "gradeMutationUnit_copy config mutationResults =
     (let ret = \<lparr>TestResult.score = 0,
                 max_score = Math_max (map pointsToAward (breakPoints config)),
                 TestResult.name = GradedUnit.name config,
                 TestResult.output = []\<rparr>
      in case map_throwing extractLocationInformation (locations config) of
           Inl e \<Rightarrow> Inl e
         | Inr gradedLocations \<Rightarrow>
            (let detected = mutantsDetected gradedLocations mutationResults;
                 breakPointsReversed = rev (breakPoints config @ []);
                 breakPointHit =
                   find (\<lambda>bp. minimumMutantsDetected bp \<le> int detected) breakPointsReversed;
                 ret = (case breakPointHit of
                          Some bp \<Rightarrow> ret\<lparr>TestResult.score := pointsToAward bp\<rparr>
                        | None \<Rightarrow> ret\<lparr>TestResult.score := 0\<rparr>)
             in case at_index (breakPoints config) (int (length (breakPoints config)) - 1) of
                  None \<Rightarrow> Inl TypeError
                | Some lastBreakPoint \<Rightarrow>
                    Inr (ret\<lparr>TestResult.output :=
                               summary detected (minimumMutantsDetected lastBreakPoint)\<rparr>,
                         config)))"

section \<open>gradeStrykerResults\<close>

text \<open>
  The configuration that \<^verbatim>\<open>YAML.parse\<close> returns is a graph of objects: \<^verbatim>\<open>gradedUnits\<close> is an
  array of references to unit objects, and each unit object refers to its \<^verbatim>\<open>breakPoints\<close>
  array. An alias in the YAML file makes two entries of \<^verbatim>\<open>gradedUnits\<close> one unit object, or
  gives two units one \<^verbatim>\<open>breakPoints\<close> array. The only write of the grader is the in-place
  reversal of such an array, so the arrays live in a store indexed by reference, and a
  unit object is its name, the reference to its array and its locations. Entries that are
  one object, or that share an array, have the same reference.
\<close>

type_synonym ref = nat

record UnitObject =
  unitName :: string
  breakPointsRef :: ref
  unitLocations :: "string list"

record Schema =
  arrays :: "ref \<Rightarrow> BreakPoint list"
  unitObjects :: "UnitObject list"
  submission :: "(string \<times> string) list"

text \<open>The unit that a call receives: the fields of the object as the store has them now.\<close>

definition readUnit :: "(ref \<Rightarrow> BreakPoint list) \<Rightarrow> UnitObject \<Rightarrow> GradedUnit" where
  "readUnit store unitObject =
     \<lparr>GradedUnit.name = unitName unitObject,
      breakPoints = store (breakPointsRef unitObject),
      locations = unitLocations unitObject\<rparr>"

text \<open>The configuration as \<^verbatim>\<open>validateConfig\<close>, which writes nothing, reads it.\<close>

definition schemaValue :: "Schema \<Rightarrow> GradingConfig" where
  "schemaValue schema =
     \<lparr>gradedUnits = map (readUnit (arrays schema)) (unitObjects schema),
      submissionFiles = submission schema\<rparr>"

text \<open>
  \<^verbatim>\<open>schema.gradedUnits.map(gradedUnit => gradeMutationUnit(gradedUnit, results))\<close>: the units
  are graded in order, each call reads its unit in the store as the calls before it left
  it and writes the array back as \<^verbatim>\<open>gradeMutationUnit\<close> leaves it, and an exception in one
  call ends the whole map. The loop takes the grader as a parameter so that both copies of
  \<^verbatim>\<open>gradeMutationUnit\<close> share it.
\<close>

fun gradeUnits ::
  "(GradedUnit \<Rightarrow> MutationTestResult \<Rightarrow> error + (TestResult \<times> GradedUnit)) \<Rightarrow>
   (ref \<Rightarrow> BreakPoint list) \<Rightarrow> UnitObject list \<Rightarrow> MutationTestResult \<Rightarrow>
   error + (TestResult list \<times> (ref \<Rightarrow> BreakPoint list))" where
  "gradeUnits grade store [] results = Inr ([], store)"
| "gradeUnits grade store (gradedUnit # rest) results =
     (case grade (readUnit store gradedUnit) results of
        Inl e \<Rightarrow> Inl e
      | Inr (testResult, gradedUnit') \<Rightarrow>
          (case gradeUnits grade (store(breakPointsRef gradedUnit := breakPoints gradedUnit'))
                  rest results of
             Inl e \<Rightarrow> Inl e
           | Inr (testResults, store') \<Rightarrow> Inr (testResult # testResults, store')))"

definition gradeResultsWith ::
  "(GradedUnit \<Rightarrow> MutationTestResult \<Rightarrow> error + (TestResult \<times> GradedUnit)) \<Rightarrow>
   Schema \<Rightarrow> MutationTestResult \<Rightarrow> error + (GraderOutput \<times> Schema)" where
  "gradeResultsWith grade schema results =
     (case gradeUnits grade (arrays schema) (unitObjects schema) results of
        Inl e \<Rightarrow> Inl e
      | Inr (testResults, store') \<Rightarrow>
          Inr (\<lparr>output = Some [], stdout_visibility = hidden,
                tests = Some testResults, score = None\<rparr>,
               schema\<lparr>arrays := store'\<rparr>))"

definition gradeStrykerResults ::
  "Schema \<Rightarrow> MutationTestResult \<Rightarrow> error + (GraderOutput \<times> Schema)" where
  "gradeStrykerResults schema results = gradeResultsWith gradeMutationUnit schema results"

definition gradeStrykerResults_copy ::
  "Schema \<Rightarrow> MutationTestResult \<Rightarrow> error + (GraderOutput \<times> Schema)" where
  "gradeStrykerResults_copy schema results = gradeResultsWith gradeMutationUnit_copy schema results"

section \<open>The mutants of a report\<close>

text \<open>
  Every mutant of the report next to the path of its file, in report order: the
  population that the detected count is taken from.
\<close>

definition mutantsOfReport :: "MutationTestResult \<Rightarrow> (string \<times> MutantResult) list" where
  "mutantsOfReport mutationResults =
     concat (map (\<lambda>(file, fileResult). map (Pair file) (mutants fileResult))
               (files mutationResults))"

section \<open>Example inputs\<close>

text \<open>
  The configuration and report of the end-to-end scenario of the specification, and the
  breakpoint tables it names for the validator.
\<close>

definition mkBreakPoint :: "int \<Rightarrow> int \<Rightarrow> BreakPoint" where
  "mkBreakPoint m p = \<lparr>minimumMutantsDetected = m, pointsToAward = p\<rparr>"

definition mkUnit :: "string \<Rightarrow> BreakPoint list \<Rightarrow> string list \<Rightarrow> GradedUnit" where
  "mkUnit n bps locs = \<lparr>GradedUnit.name = n, breakPoints = bps, locations = locs\<rparr>"

definition mkConfig :: "GradedUnit list \<Rightarrow> GradingConfig" where
  "mkConfig us = \<lparr>gradedUnits = us, submissionFiles = []\<rparr>"

definition mkMutant :: "string \<Rightarrow> int \<Rightarrow> MutantResult" where
  "mkMutant st l = \<lparr>status = st, location = \<lparr>start = \<lparr>line = l, column = 1\<rparr>\<rparr>\<rparr>"

definition mkReport :: "(string \<times> MutantResult list) list \<Rightarrow> MutationTestResult" where
  "mkReport fs = \<lparr>files = map (\<lambda>(f, ms). (f, \<lparr>mutants = ms\<rparr>)) fs\<rparr>"

definition unitU :: GradedUnit where
  "unitU = mkUnit ''U'' [mkBreakPoint 0 0, mkBreakPoint 3 5, mkBreakPoint 6 10] [''foo.ts:1-5'']"

definition reportU :: MutationTestResult where
  "reportU = mkReport [(''src/foo.ts'',
     [mkMutant ''Killed'' 1, mkMutant ''Killed'' 2, mkMutant ''Survived'' 3,
      mkMutant ''Killed'' 4, mkMutant ''Survived'' 5, mkMutant ''Killed'' 5])]"

definition unitDecreasingPoints :: GradedUnit where
  "unitDecreasingPoints = mkUnit ''D'' [mkBreakPoint 0 10, mkBreakPoint 5 5] [''foo.ts:1-5'']"



definition unitNoBreakPoints :: GradedUnit where
  "unitNoBreakPoints = mkUnit ''G'' [] [''foo.ts:1-5'']"

definition unitColumn :: GradedUnit where
  "unitColumn = mkUnit ''H'' [mkBreakPoint 0 0, mkBreakPoint 3 5] [''a/b.ts:10:2'']"


text \<open>
  A configuration without aliases: every unit of the list is an object of its own, with a
  \<^verbatim>\<open>breakPoints\<close> array of its own at the reference that is its position.
\<close>

definition freshSchema :: "GradedUnit list \<Rightarrow> Schema" where
  "freshSchema us =
     \<lparr>arrays = (\<lambda>i. if i < length us then breakPoints (us ! i) else []),
      unitObjects =
        map (\<lambda>(i, u). \<lparr>unitName = GradedUnit.name u, breakPointsRef = i,
                         unitLocations = locations u\<rparr>)
          (enumerate 0 us),
      submission = []\<rparr>"

text \<open>
  A configuration that lists the unit of the end-to-end scenario twice, as a YAML alias
  does: both entries are one object, with one \<^verbatim>\<open>breakPoints\<close> array.
\<close>

definition unitObjectU :: UnitObject where
  "unitObjectU = \<lparr>unitName = ''U'', breakPointsRef = 0, unitLocations = [''foo.ts:1-5'']\<rparr>"

definition schemaShared :: Schema where
  "schemaShared =
     \<lparr>arrays = (\<lambda>i. if i = 0 then breakPoints unitU else []),
      unitObjects = [unitObjectU, unitObjectU],
      submission = []\<rparr>"

definition rangeFoo :: LocationRange where
  "rangeFoo = \<lparr>fileName = ''foo.ts'', startLine = Finite 1, endLine = Finite 5\<rparr>"

definition reportEmpty :: MutationTestResult where
  "reportEmpty = mkReport []"

definition reportFiveKilled :: MutationTestResult where
  "reportFiveKilled = mkReport [(''src/foo.ts'', replicate 5 (mkMutant ''Killed'' 1))]"

text \<open>A non-empty string of decimal digits: what \<open>string_of_nat\<close> produces.\<close>

definition decimal :: "string \<Rightarrow> bool" where
  "decimal s = (s \<noteq> [] \<and> (\<forall>c\<in>set s. \<exists>d<10. c = digitChar d))"

section \<open>Facts about the built-ins\<close>

lemma str_includes_iff: "str_includes s sub \<longleftrightarrow> (\<exists>pre post. s = pre @ sub @ post)"
proof (induction s)
  case Nil
  then show ?case by auto
next
  case (Cons c cs)
  have a: "take (length sub) (c # cs) = sub \<longleftrightarrow> (\<exists>post. c # cs = sub @ post)"
    by (metis append_eq_conv_conj)
  show ?case
  proof
    assume "str_includes (c # cs) sub"
    then consider "take (length sub) (c # cs) = sub" | "str_includes cs sub" by auto
    then show "\<exists>pre post. c # cs = pre @ sub @ post"
    proof cases
      case 1
      then obtain post where "c # cs = sub @ post" using a by blast
      then have "c # cs = [] @ sub @ post" by simp
      then show ?thesis by blast
    next
      case 2
      then obtain pre post where "cs = pre @ sub @ post" using Cons.IH by blast
      then have "c # cs = (c # pre) @ sub @ post" by simp
      then show ?thesis by blast
    qed
  next
    assume "\<exists>pre post. c # cs = pre @ sub @ post"
    then obtain pre post where eq: "c # cs = pre @ sub @ post" by blast
    show "str_includes (c # cs) sub"
    proof (cases pre)
      case Nil
      then have "\<exists>post. c # cs = sub @ post" using eq by auto
      then have "take (length sub) (c # cs) = sub" using a by blast
      then show ?thesis by simp
    next
      case (Cons p ps)
      then have "cs = ps @ sub @ post" using eq by simp
      then show ?thesis using Cons.IH by auto
    qed
  qed
qed

lemma str_includes_char: "str_includes s [c] \<longleftrightarrow> c \<in> set s"
  by (induction s) auto

lemma str_split_no_sep: "sep \<notin> set s \<Longrightarrow> str_split sep s = [s]"
  by (induction s) auto

lemma str_split_append:
  "sep \<notin> set xs \<Longrightarrow> str_split sep (xs @ sep # ys) = xs # str_split sep ys"
  by (induction xs) auto

lemma length_str_split: "length (str_split sep s) = Suc (length (filter (\<lambda>c. c = sep) s))"
  by (induction s) (auto split: list.splits)

lemma of_char_digitChar: "d < 10 \<Longrightarrow> (of_char (digitChar d) :: nat) = 48 + d"
  by (simp add: digitChar_def)

lemma digitOf_digitChar: "d < 10 \<Longrightarrow> digitOf 10 (digitChar d) = Some d"
  by (simp add: digitOf_def of_char_digitChar)

lemma digitChar_not_space: "d < 10 \<Longrightarrow> \<not> isWhiteSpace (digitChar d)"
  by (simp add: isWhiteSpace_def of_char_digitChar)

lemma digitChar_neq: "d < 10 \<Longrightarrow> (of_char c :: nat) < 48 \<or> 57 < (of_char c :: nat) \<Longrightarrow> digitChar d \<noteq> c"
  using of_char_digitChar[of d] by auto

lemma decimal_string_of_nat: "decimal (string_of_nat n)"
proof (induction n rule: string_of_nat.induct)
  case (1 n)
  show ?case
  proof (cases "n < 10")
    case True
    then show ?thesis by (subst string_of_nat.simps) (auto simp: decimal_def)
  next
    case False
    have "\<exists>d<10. digitChar (n mod 10) = digitChar d"
      by (rule exI[of _ "n mod 10"]) simp
    then show ?thesis using 1[OF False] False
      by (subst string_of_nat.simps) (auto simp: decimal_def)
  qed
qed

lemma digitsValue_snoc:
  "digitsValue r (z @ [c]) =
     digitsValue r z * int r + (case digitOf r c of Some d \<Rightarrow> int d | None \<Rightarrow> 0)"
  by (simp add: digitsValue_def)

lemma digitsValue_string_of_nat: "digitsValue 10 (string_of_nat n) = int n"
proof (induction n rule: string_of_nat.induct)
  case (1 n)
  show ?case
  proof (cases "n < 10")
    case True
    then show ?thesis
      by (subst string_of_nat.simps) (simp add: digitsValue_def digitOf_digitChar)
  next
    case False
    have m: "n mod 10 < 10" by simp
    have "digitsValue 10 (string_of_nat n) = digitsValue 10 (string_of_nat (n div 10) @ [digitChar (n mod 10)])"
      using False by (subst string_of_nat.simps) simp
    also have "\<dots> = int (n div 10) * 10 + int (n mod 10)"
      using 1[OF False] by (simp add: digitsValue_snoc digitOf_digitChar[OF m])
    also have "\<dots> = int n" by (simp add: zdiv_int zmod_int)
    finally show ?thesis .
  qed
qed

lemma parseInt_decimal:
  assumes "decimal s"
  shows "parseInt s = toDouble (digitsValue 10 s)"
proof -
  from assms obtain c r where s: "s = c # r" by (cases s) (auto simp: decimal_def)
  from assms s obtain d where d: "d < 10" "c = digitChar d" by (auto simp: decimal_def)
  have all: "\<forall>x\<in>set s. digitOf 10 x \<noteq> None"
    using assms by (auto simp: decimal_def digitOf_digitChar)
  have nows: "\<not> isWhiteSpace c" using d digitChar_not_space by simp
  have c1: "c \<noteq> CHR ''-''" "c \<noteq> CHR ''+''"
    using d digitChar_neq[of d "CHR ''-''"] digitChar_neq[of d "CHR ''+''"] by simp_all
  have nohex: "take 2 s \<noteq> ''0x''" "take 2 s \<noteq> ''0X''"
  proof -
    show "take 2 s \<noteq> ''0x''"
    proof
      assume h: "take 2 s = ''0x''"
      then have "CHR ''x'' \<in> set (take 2 s)" by simp
      then have "CHR ''x'' \<in> set s" by (rule in_set_takeD)
      then obtain e where e: "e < 10" and ex: "CHR ''x'' = digitChar e"
        using assms by (auto simp: decimal_def)
      have "digitChar e \<noteq> CHR ''x''" using e by (intro digitChar_neq) simp_all
      then show False using ex by simp
    qed
    show "take 2 s \<noteq> ''0X''"
    proof
      assume h: "take 2 s = ''0X''"
      then have "CHR ''X'' \<in> set (take 2 s)" by simp
      then have "CHR ''X'' \<in> set s" by (rule in_set_takeD)
      then obtain e where e: "e < 10" and ex: "CHR ''X'' = digitChar e"
        using assms by (auto simp: decimal_def)
      have "digitChar e \<noteq> CHR ''X''" using e by (intro digitChar_neq) simp_all
      then show False using ex by simp
    qed
  qed
  have tw: "takeWhile (\<lambda>c. digitOf 10 c \<noteq> None) s = s"
    using all by (simp add: takeWhile_eq_all_conv)
  have dw: "dropWhile isWhiteSpace s = s" using s nows by simp
  have sg: "(case s of c # _ \<Rightarrow> if c = CHR ''-'' then - 1 else 1 | [] \<Rightarrow> (1::int)) = 1"
    using s c1 by simp
  have s2: "(case s of c # r \<Rightarrow> if c = CHR ''-'' \<or> c = CHR ''+'' then r else s | [] \<Rightarrow> s) = s"
    using s c1 by simp
  have hex: "(take 2 s = ''0x'' \<or> take 2 s = ''0X'') = False"
    using nohex by simp
  have ne: "s \<noteq> []" using s by simp
  show ?thesis
    unfolding parseInt_def Let_def dw sg s2 hex if_False tw using ne by simp
qed

lemma parseInt_string_of_nat: "parseInt (string_of_nat n) = toDouble (int n)"
  by (simp add: parseInt_decimal decimal_string_of_nat digitsValue_string_of_nat)

text \<open>Below \<open>2 ^ 53\<close> the rounding changes nothing.\<close>

lemma two_to_53: "(2::int) ^ 53 = 9007199254740992"
  by simp

lemma toDouble_exact: "v < 2 ^ 53 \<Longrightarrow> toDouble v = Finite v"
  by (simp add: toDouble_def)

lemma string_of_nat_no_char:
  "(of_char c :: nat) < 48 \<or> 57 < (of_char c :: nat) \<Longrightarrow> c \<notin> set (string_of_nat n)"
proof
  assume a: "(of_char c :: nat) < 48 \<or> 57 < (of_char c :: nat)" and "c \<in> set (string_of_nat n)"
  then obtain d where "d < 10" "c = digitChar d"
    using decimal_string_of_nat[of n] unfolding decimal_def by blast
  then show False using digitChar_neq[OF _ a] by blast
qed

text \<open>The parser returns a range exactly on the strings with one \<^verbatim>\<open>:\<close>.\<close>

lemma extractLocationInformation_returns_iff:
  "(\<exists>l. extractLocationInformation s = Inr l) \<longleftrightarrow>
     length (filter (\<lambda>c. c = CHR '':'') s) = 1"
proof -
  let ?n = "length (filter (\<lambda>c. c = CHR '':'') s)"
  have len: "length (str_split CHR '':'' s) = Suc ?n" by (rule length_str_split)
  consider "?n = 0" | "?n = 1" | "2 \<le> ?n" by linarith
  then show ?thesis
  proof cases
    case 1
    then have "at_index (str_split CHR '':'' s) 1 = None" using len by (simp add: at_index_def)
    then show ?thesis using 1 len by (simp add: extractLocationInformation_def Let_def)
  next
    case 2
    then have "at_index (str_split CHR '':'' s) 1 \<noteq> None" using len by (simp add: at_index_def)
    then show ?thesis using 2 len
      by (auto simp: extractLocationInformation_def Let_def split: option.splits)
  next
    case 3
    then show ?thesis using len by (simp add: extractLocationInformation_def)
  qed
qed

text \<open>The digits of a number, evaluated, and what the parser returns on them.\<close>

lemma digitChar_values:
  "digitChar 0 = CHR ''0''" "digitChar 1 = CHR ''1''" "digitChar 2 = CHR ''2''"
  "digitChar 3 = CHR ''3''" "digitChar 4 = CHR ''4''" "digitChar 5 = CHR ''5''"
  "digitChar 6 = CHR ''6''" "digitChar 7 = CHR ''7''" "digitChar 8 = CHR ''8''"
  "digitChar 9 = CHR ''9''" "digitChar (Suc 0) = CHR ''1''"
  by code_simp+

lemma string_of_nat_big: "string_of_nat 9007199254740993 = ''9007199254740993''"
  by (simp add: string_of_nat.simps digitChar_values)

lemma extractLocationInformation_single:
  assumes f: "CHR '':'' \<notin> set f"
  shows "extractLocationInformation (f @ '':'' @ string_of_nat n) =
           Inr \<lparr>fileName = f, startLine = toDouble (int n), endLine = toDouble (int n)\<rparr>"
proof -
  have nc: "CHR '':'' \<notin> set (string_of_nat n)" by (rule string_of_nat_no_char) simp
  have nd: "CHR ''-'' \<notin> set (string_of_nat n)" by (rule string_of_nat_no_char) simp
  have parts: "str_split CHR '':'' (f @ '':'' @ string_of_nat n) = [f, string_of_nat n]"
    using str_split_append[OF f, of "string_of_nat n"] str_split_no_sep[OF nc] by simp
  show ?thesis
    unfolding extractLocationInformation_def parts
    using nd by (simp add: Let_def at_index_def str_includes_char parseInt_string_of_nat)
qed

lemma extractLocationInformation_range:
  assumes f: "CHR '':'' \<notin> set f"
  shows "extractLocationInformation (f @ '':'' @ string_of_nat a @ ''-'' @ string_of_nat b) =
           Inr \<lparr>fileName = f, startLine = toDouble (int a), endLine = toDouble (int b)\<rparr>"
proof -
  let ?p1 = "string_of_nat a @ ''-'' @ string_of_nat b"
  have nc: "CHR '':'' \<notin> set ?p1"
    using string_of_nat_no_char[of "CHR '':''" a] string_of_nat_no_char[of "CHR '':''" b] by simp
  have nda: "CHR ''-'' \<notin> set (string_of_nat a)" by (rule string_of_nat_no_char) simp
  have ndb: "CHR ''-'' \<notin> set (string_of_nat b)" by (rule string_of_nat_no_char) simp
  have parts: "str_split CHR '':'' (f @ '':'' @ ?p1) = [f, ?p1]"
    using str_split_append[OF f, of ?p1] str_split_no_sep[OF nc] by simp
  have lineParts: "str_split CHR ''-'' ?p1 = [string_of_nat a, string_of_nat b]"
    using str_split_append[OF nda, of "string_of_nat b"] str_split_no_sep[OF ndb] by simp
  have inc: "str_includes ?p1 ''-''" by (simp add: str_includes_char)
  show ?thesis
    unfolding extractLocationInformation_def parts Let_def
    using inc lineParts by (simp add: at_index_def parseInt_at_def parseInt_string_of_nat)
qed

section \<open>Facts about validateConfig\<close>

lemma breakPointsThrow_iff:
  "breakPointsThrow lastBP bps \<longleftrightarrow>
     \<not> sorted_wrt (<) (lastBP # map minimumMutantsDetected bps)"
proof (induction bps arbitrary: lastBP)
  case Nil
  then show ?case by simp
next
  case (Cons b bs)
  have "sorted_wrt (<) (lastBP # minimumMutantsDetected b # map minimumMutantsDetected bs) \<longleftrightarrow>
        lastBP < minimumMutantsDetected b \<and>
        sorted_wrt (<) (minimumMutantsDetected b # map minimumMutantsDetected bs)"
    by auto
  then show ?case using Cons.IH[of "minimumMutantsDetected b"] by auto
qed

lemma strictly_ascending_iff_consecutive:
  fixes xs :: "int list"
  shows "sorted_wrt (<) xs \<longleftrightarrow> (\<forall>i. Suc i < length xs \<longrightarrow> xs ! i < xs ! Suc i)"
  by (rule sorted_wrt_iff_nth_Suc_transp) (simp add: transp_def)

lemma breakPointsThrow_nonneg:
  assumes "\<forall>bp\<in>set bps. 0 \<le> minimumMutantsDetected bp"
  shows "breakPointsThrow (- 1) bps \<longleftrightarrow>
         (\<exists>i. Suc i < length bps \<and>
              minimumMutantsDetected (bps ! Suc i) \<le> minimumMutantsDetected (bps ! i))"
proof -
  have "sorted_wrt (<) (- 1 # map minimumMutantsDetected bps) \<longleftrightarrow>
        sorted_wrt (<) (map minimumMutantsDetected bps)"
    using assms by fastforce
  then show ?thesis
    unfolding breakPointsThrow_iff strictly_ascending_iff_consecutive
    by (auto simp: not_less)
qed

lemma validateUnits_Inr:
  "validateUnits us = Inr () \<longleftrightarrow> (\<forall>u\<in>set us. \<not> breakPointsThrow (- 1) (breakPoints u))"
  by (induction us) auto

lemma validateUnits_Inl:
  "(\<exists>e. validateUnits us = Inl e) \<longleftrightarrow> (\<exists>u\<in>set us. breakPointsThrow (- 1) (breakPoints u))"
  by (induction us) auto


text \<open>
  The loop starts with \<open>lastBP = -1\<close>: a first threshold of \<open>-1\<close> or less is refused as
  well. The data model of the specification has non-negative thresholds only.
\<close>

lemma breakPointsThrow_first_negative:
  "minimumMutantsDetected b \<le> - 1 \<Longrightarrow> breakPointsThrow (- 1) (b # bps)"
  by simp


section \<open>Facts about gradeMutationUnit\<close>

lemma at_index_last: "xs \<noteq> [] \<Longrightarrow> at_index xs (int (length xs) - 1) = Some (last xs)"
  by (cases xs rule: rev_cases) (auto simp: at_index_def nth_append)

lemma at_index_last_iff: "at_index xs (int (length xs) - 1) \<noteq> None \<longleftrightarrow> xs \<noteq> []"
  by (cases xs) (auto simp: at_index_def)

lemma find_None_iff_all: "find P xs = None \<longleftrightarrow> (\<forall>x\<in>set xs. \<not> P x)"
  by (induction xs) auto

lemma find_Some_set: "find P xs = Some x \<Longrightarrow> x \<in> set xs \<and> P x"
  by (induction xs) (auto split: if_splits)

lemma find_descending:
  assumes "sorted_wrt (\<lambda>a b. f b < (f a :: int)) xs" "find P xs = Some b" "b' \<in> set xs" "P b'"
  shows "f b' \<le> f b"
  using assms
proof (induction xs)
  case Nil
  then show ?case by simp
next
  case (Cons x xs)
  show ?case
  proof (cases "P x")
    case True
    then have "b = x" using Cons.prems(2) by simp
    then show ?thesis using Cons.prems(1,3) by auto
  next
    case False
    then have "find P xs = Some b" "b' \<in> set xs" using Cons.prems by auto
    then show ?thesis using Cons.IH Cons.prems(1,4) by auto
  qed
qed

lemma scan_highest:
  assumes "sorted_wrt (<) (map minimumMutantsDetected bps)"
      and "find (\<lambda>bp. minimumMutantsDetected bp \<le> d) (rev bps) = Some b"
      and "b' \<in> set bps" "minimumMutantsDetected b' \<le> d"
  shows "minimumMutantsDetected b' \<le> minimumMutantsDetected b"
proof -
  have "sorted_wrt (\<lambda>a b. minimumMutantsDetected b < minimumMutantsDetected a) (rev bps)"
    using assms(1) by (simp add: sorted_wrt_rev sorted_wrt_map)
  from find_descending[OF this assms(2) _ assms(4)] assms(3) show ?thesis by simp
qed

lemma thresholds_inj:
  assumes "sorted_wrt (<) (map minimumMutantsDetected bps)"
      and "b \<in> set bps" "b' \<in> set bps" "minimumMutantsDetected b = minimumMutantsDetected b'"
  shows "b = b'"
proof -
  have "distinct (map minimumMutantsDetected bps)"
    using assms(1) strict_sorted_iff by blast
  then have "inj_on minimumMutantsDetected (set bps)" by (simp add: distinct_map)
  then show ?thesis using assms(2-4) by (auto dest: inj_onD)
qed

text \<open>The score of the scan over the reversed table, as a function of the detected count.\<close>

lemma scan_score:
  fixes bps :: "BreakPoint list" and d :: int
  assumes "sorted_wrt (<) (map minimumMutantsDetected bps)"
  defines "s \<equiv> (case find (\<lambda>bp. minimumMutantsDetected bp \<le> d) (rev bps) of
                    Some bp \<Rightarrow> pointsToAward bp | None \<Rightarrow> 0)"
  shows "(\<forall>bp\<in>set bps. minimumMutantsDetected bp \<le> d \<and>
            (\<forall>bp'\<in>set bps. minimumMutantsDetected bp' \<le> d \<longrightarrow>
               minimumMutantsDetected bp' \<le> minimumMutantsDetected bp) \<longrightarrow> s = pointsToAward bp)"
    and "(\<forall>bp\<in>set bps. d < minimumMutantsDetected bp) \<longrightarrow> s = 0"
    and "(\<forall>bp\<in>set bps. minimumMutantsDetected bp = d \<longrightarrow> s = pointsToAward bp)"
proof -
  have hi: "s = pointsToAward bp"
    if "bp \<in> set bps" "minimumMutantsDetected bp \<le> d"
       "\<forall>bp'\<in>set bps. minimumMutantsDetected bp' \<le> d \<longrightarrow>
               minimumMutantsDetected bp' \<le> minimumMutantsDetected bp" for bp
  proof -
    have "find (\<lambda>bp. minimumMutantsDetected bp \<le> d) (rev bps) \<noteq> None"
      using that(1,2) by (auto simp: find_None_iff_all)
    then obtain b where b: "find (\<lambda>bp. minimumMutantsDetected bp \<le> d) (rev bps) = Some b"
      by blast
    from find_Some_set[OF b] have bin: "b \<in> set bps" "minimumMutantsDetected b \<le> d" by auto
    have "minimumMutantsDetected bp \<le> minimumMutantsDetected b"
      using scan_highest[OF assms(1) b that(1,2)] .
    moreover have "minimumMutantsDetected b \<le> minimumMutantsDetected bp"
      using that(3) bin by blast
    ultimately have "b = bp" using thresholds_inj[OF assms(1) bin(1) that(1)] by simp
    then show ?thesis using b by (simp add: s_def)
  qed
  show "(\<forall>bp\<in>set bps. minimumMutantsDetected bp \<le> d \<and>
            (\<forall>bp'\<in>set bps. minimumMutantsDetected bp' \<le> d \<longrightarrow>
               minimumMutantsDetected bp' \<le> minimumMutantsDetected bp) \<longrightarrow> s = pointsToAward bp)"
    using hi by blast
  show "(\<forall>bp\<in>set bps. d < minimumMutantsDetected bp) \<longrightarrow> s = 0"
  proof
    assume "\<forall>bp\<in>set bps. d < minimumMutantsDetected bp"
    then have "find (\<lambda>bp. minimumMutantsDetected bp \<le> d) (rev bps) = None"
      by (auto simp: find_None_iff_all)
    then show "s = 0" by (simp add: s_def)
  qed
  show "\<forall>bp\<in>set bps. minimumMutantsDetected bp = d \<longrightarrow> s = pointsToAward bp"
  proof (intro ballI impI)
    fix bp assume bp: "bp \<in> set bps" "minimumMutantsDetected bp = d"
    have "\<forall>bp'\<in>set bps. minimumMutantsDetected bp' \<le> d \<longrightarrow>
               minimumMutantsDetected bp' \<le> minimumMutantsDetected bp"
      using bp(2) by simp
    then show "s = pointsToAward bp" using hi[OF bp(1)] bp(2) by simp
  qed
qed

text \<open>What the two copies of the grader return when the locations parse.\<close>

lemma gradeMutationUnit_returns:
  assumes "map_throwing extractLocationInformation (locations u) = Inr locs"
      and "breakPoints u \<noteq> []"
  shows "gradeMutationUnit u r =
     Inr (\<lparr>TestResult.score =
             (case find (\<lambda>bp. minimumMutantsDetected bp \<le> int (mutantsDetected locs r))
                     (rev (breakPoints u)) of
                Some bp \<Rightarrow> pointsToAward bp | None \<Rightarrow> 0),
           max_score = Math_max (map pointsToAward (breakPoints u)),
           TestResult.name = GradedUnit.name u,
           TestResult.output =
             summary (mutantsDetected locs r) (minimumMutantsDetected (hd (breakPoints u)))\<rparr>,
          u\<lparr>breakPoints := rev (breakPoints u)\<rparr>)"
proof -
  have "at_index (rev (breakPoints u)) (int (length (rev (breakPoints u))) - 1)
          = Some (hd (breakPoints u))"
    using at_index_last[of "rev (breakPoints u)"] assms(2) by (simp add: last_rev)
  then show ?thesis
    unfolding gradeMutationUnit_def using assms(1)
    by (simp add: Let_def split: option.split)
qed

lemma gradeMutationUnit_copy_returns:
  assumes "map_throwing extractLocationInformation (locations u) = Inr locs"
      and "breakPoints u \<noteq> []"
  shows "gradeMutationUnit_copy u r =
     Inr (\<lparr>TestResult.score =
             (case find (\<lambda>bp. minimumMutantsDetected bp \<le> int (mutantsDetected locs r))
                     (rev (breakPoints u)) of
                Some bp \<Rightarrow> pointsToAward bp | None \<Rightarrow> 0),
           max_score = Math_max (map pointsToAward (breakPoints u)),
           TestResult.name = GradedUnit.name u,
           TestResult.output =
             summary (mutantsDetected locs r) (minimumMutantsDetected (last (breakPoints u)))\<rparr>,
          u)"
  unfolding gradeMutationUnit_copy_def using assms at_index_last[of "breakPoints u"]
  by (simp add: Let_def split: option.split)

lemma gradeMutationUnit_throws:
  "(\<exists>e. gradeMutationUnit u r = Inl e) \<longleftrightarrow>
     (\<exists>e. map_throwing extractLocationInformation (locations u) = Inl e) \<or> breakPoints u = []"
proof (cases "map_throwing extractLocationInformation (locations u)")
  case (Inl e)
  then show ?thesis by (simp add: gradeMutationUnit_def)
next
  case (Inr locs)
  show ?thesis
  proof (cases "breakPoints u = []")
    case True
    then show ?thesis using Inr by (simp add: gradeMutationUnit_def at_index_def)
  next
    case False
    then show ?thesis using gradeMutationUnit_returns[OF Inr False] Inr by simp
  qed
qed

lemma gradeMutationUnit_copy_throws:
  "(\<exists>e. gradeMutationUnit_copy u r = Inl e) \<longleftrightarrow>
     (\<exists>e. map_throwing extractLocationInformation (locations u) = Inl e) \<or> breakPoints u = []"
proof (cases "map_throwing extractLocationInformation (locations u)")
  case (Inl e)
  then show ?thesis by (simp add: gradeMutationUnit_copy_def)
next
  case (Inr locs)
  show ?thesis
  proof (cases "breakPoints u = []")
    case True
    then show ?thesis using Inr by (simp add: gradeMutationUnit_copy_def at_index_def)
  next
    case False
    then show ?thesis using gradeMutationUnit_copy_returns[OF Inr False] Inr by simp
  qed
qed

text \<open>The example inputs, evaluated.\<close>

lemma unitU_locations:
  "map_throwing extractLocationInformation (locations unitU) =
     Inr [rangeFoo]"
  by code_simp

lemma reportU_detected:
  "mutantsDetected [rangeFoo] reportU = 4"
  by code_simp

lemma validated_ascending:
  assumes "validateConfig config = Inr ()" "u \<in> set (gradedUnits config)"
  shows "sorted_wrt (<) (map minimumMutantsDetected (breakPoints u))"
proof -
  have "\<not> breakPointsThrow (- 1) (breakPoints u)"
    using assms by (simp add: validateConfig_def validateUnits_Inr)
  then show ?thesis by (simp add: breakPointsThrow_iff)
qed

lemma scan_monotone:
  fixes bps :: "BreakPoint list" and d1 d2 :: int
  assumes asc: "sorted_wrt (<) (map minimumMutantsDetected bps)"
      and pts: "sorted (map pointsToAward bps)"
      and nonneg: "\<forall>bp\<in>set bps. 0 \<le> pointsToAward bp"
      and le: "d1 \<le> d2"
  shows "(case find (\<lambda>bp. minimumMutantsDetected bp \<le> d1) (rev bps) of
            Some bp \<Rightarrow> pointsToAward bp | None \<Rightarrow> 0) \<le>
         (case find (\<lambda>bp. minimumMutantsDetected bp \<le> d2) (rev bps) of
            Some bp \<Rightarrow> pointsToAward bp | None \<Rightarrow> 0)"
proof (cases "find (\<lambda>bp. minimumMutantsDetected bp \<le> d1) (rev bps)")
  case None
  show ?thesis
  proof (cases "find (\<lambda>bp. minimumMutantsDetected bp \<le> d2) (rev bps)")
    case None
    then show ?thesis using \<open>find (\<lambda>bp. minimumMutantsDetected bp \<le> d1) (rev bps) = None\<close> by simp
  next
    case (Some b2)
    then have "b2 \<in> set bps" using find_Some_set[OF Some] by simp
    then show ?thesis using None Some nonneg by simp
  qed
next
  case (Some b1)
  from find_Some_set[OF Some] have b1: "b1 \<in> set bps" "minimumMutantsDetected b1 \<le> d1" by auto
  then have q2: "minimumMutantsDetected b1 \<le> d2" using le by simp
  then have "find (\<lambda>bp. minimumMutantsDetected bp \<le> d2) (rev bps) \<noteq> None"
    using b1(1) by (auto simp: find_None_iff_all)
  then obtain b2 where S2: "find (\<lambda>bp. minimumMutantsDetected bp \<le> d2) (rev bps) = Some b2"
    by blast
  from find_Some_set[OF S2] have b2: "b2 \<in> set bps" by simp
  have mle: "minimumMutantsDetected b1 \<le> minimumMutantsDetected b2"
    using scan_highest[OF asc S2 b1(1) q2] .
  obtain i where i: "i < length bps" "bps ! i = b1" using b1(1) by (auto simp: in_set_conv_nth)
  obtain j where j: "j < length bps" "bps ! j = b2" using b2 by (auto simp: in_set_conv_nth)
  have "i \<le> j"
  proof (rule ccontr)
    assume "\<not> i \<le> j"
    then have "j < i" by simp
    then have "map minimumMutantsDetected bps ! j < map minimumMutantsDetected bps ! i"
      using sorted_wrt_nth_less[OF asc, of j i] i(1) by simp
    then show False using i j mle by simp
  qed
  then have "map pointsToAward bps ! i \<le> map pointsToAward bps ! j"
    using sorted_nth_mono[OF pts, of i j] j(1) by simp
  then have "pointsToAward b1 \<le> pointsToAward b2" using i j by simp
  then show ?thesis using Some S2 by simp
qed

lemma unitDecreasingPoints_locations:
  "map_throwing extractLocationInformation (locations unitDecreasingPoints) = Inr [rangeFoo]"
  by code_simp

lemma Math_max_nonempty: "xs \<noteq> [] \<Longrightarrow> Math_max xs = Num (Max (set xs))"
proof (induction xs)
  case Nil
  then show ?case by simp
next
  case (Cons x xs)
  show ?case
  proof (cases "xs = []")
    case True
    then show ?thesis by simp
  next
    case False
    then show ?thesis using Cons.IH by (simp add: Max_insert)
  qed
qed

lemma Math_max_NegInfinity: "Math_max xs = NegInfinity \<longleftrightarrow> xs = []"
  by (cases xs) (auto split: number.splits)

lemma gradeMutationUnit_reverses:
  assumes "gradeMutationUnit u r = Inr (t, u')"
  shows "u' = u\<lparr>breakPoints := rev (breakPoints u)\<rparr>"
proof -
  from assms have n: "\<not> (\<exists>e. gradeMutationUnit u r = Inl e)" by simp
  then obtain locs where l: "map_throwing extractLocationInformation (locations u) = Inr locs"
    and ne: "breakPoints u \<noteq> []"
    unfolding gradeMutationUnit_throws
    by (cases "map_throwing extractLocationInformation (locations u)") auto
  show ?thesis using gradeMutationUnit_returns[OF l ne, of r] assms by simp
qed

lemma gradeMutationUnit_copy_preserves:
  assumes "gradeMutationUnit_copy u r = Inr (t, u')"
  shows "u' = u"
proof -
  from assms have n: "\<not> (\<exists>e. gradeMutationUnit_copy u r = Inl e)" by simp
  then obtain locs where l: "map_throwing extractLocationInformation (locations u) = Inr locs"
    and ne: "breakPoints u \<noteq> []"
    unfolding gradeMutationUnit_copy_throws
    by (cases "map_throwing extractLocationInformation (locations u)") auto
  show ?thesis using gradeMutationUnit_copy_returns[OF l ne, of r] assms by simp
qed

lemma unitNoBreakPoints_locations:
  "map_throwing extractLocationInformation (locations unitNoBreakPoints) = Inr [rangeFoo]"
  by code_simp

section \<open>Facts about gradeStrykerResults\<close>

text \<open>
  When no two entries share a \<^verbatim>\<open>breakPoints\<close> array, the reversal that one call leaves
  behind is never read by a later call.
\<close>

lemma readUnit_other:
  "breakPointsRef x \<noteq> a \<Longrightarrow> readUnit (store(a := v)) x = readUnit store x"
  by (simp add: readUnit_def)

lemma gradeUnits_returns:
  assumes "distinct (map breakPointsRef uos)"
      and "\<forall>uo\<in>set uos. store (breakPointsRef uo) \<noteq> [] \<and>
             (\<exists>locs. map_throwing extractLocationInformation (unitLocations uo) = Inr locs)"
  shows "\<exists>ts store'. gradeUnits gradeMutationUnit store uos r = Inr (ts, store') \<and>
           length ts = length uos \<and>
           (\<forall>i<length uos. \<exists>u'. gradeMutationUnit (readUnit store (uos ! i)) r = Inr (ts ! i, u'))"
  using assms
proof (induction uos arbitrary: store)
  case Nil
  then show ?case by simp
next
  case (Cons uo rest)
  let ?u = "readUnit store uo"
  from Cons.prems(2) obtain locs where
    l: "map_throwing extractLocationInformation (locations ?u) = Inr locs"
    and ne: "breakPoints ?u \<noteq> []"
    by (auto simp: readUnit_def)
  from gradeMutationUnit_returns[OF l ne, of r] obtain t where
    g: "gradeMutationUnit ?u r = Inr (t, ?u\<lparr>breakPoints := rev (breakPoints ?u)\<rparr>)"
    by blast
  let ?store1 = "store(breakPointsRef uo := rev (breakPoints ?u))"
  have neq: "breakPointsRef x \<noteq> breakPointsRef uo" if "x \<in> set rest" for x
  proof -
    have "breakPointsRef uo \<notin> breakPointsRef ` set rest" using Cons.prems(1) by simp
    moreover have "breakPointsRef x \<in> breakPointsRef ` set rest" using that by (rule imageI)
    ultimately show ?thesis by metis
  qed
  have other: "readUnit ?store1 x = readUnit store x" if "x \<in> set rest" for x
    using neq[OF that] by (rule readUnit_other)
  have d: "distinct (map breakPointsRef rest)" using Cons.prems(1) by simp
  have h: "\<forall>x\<in>set rest. ?store1 (breakPointsRef x) \<noteq> [] \<and>
             (\<exists>locs. map_throwing extractLocationInformation (unitLocations x) = Inr locs)"
  proof
    fix x assume x: "x \<in> set rest"
    have "?store1 (breakPointsRef x) = store (breakPointsRef x)" using neq[OF x] by simp
    then show "?store1 (breakPointsRef x) \<noteq> [] \<and>
             (\<exists>locs. map_throwing extractLocationInformation (unitLocations x) = Inr locs)"
      using Cons.prems(2) x by simp
  qed
  from Cons.IH[OF d h] obtain ts store' where
    rest: "gradeUnits gradeMutationUnit ?store1 rest r = Inr (ts, store')"
          "length ts = length rest"
          "\<forall>i<length rest. \<exists>u'. gradeMutationUnit (readUnit ?store1 (rest ! i)) r = Inr (ts ! i, u')"
    by blast
  have run: "gradeUnits gradeMutationUnit store (uo # rest) r = Inr (t # ts, store')"
    using g rest(1) by simp
  have each: "\<exists>u'. gradeMutationUnit (readUnit store ((uo # rest) ! i)) r = Inr ((t # ts) ! i, u')"
    if "i < length (uo # rest)" for i
  proof (cases i)
    case 0
    then show ?thesis using g by auto
  next
    case (Suc j)
    then have j: "j < length rest" using that by simp
    then have "rest ! j \<in> set rest" by simp
    then have "readUnit ?store1 (rest ! j) = readUnit store (rest ! j)" by (rule other)
    then show ?thesis using rest(3) j Suc by auto
  qed
  show ?case using run rest(2) each by auto
qed

text \<open>The copy of the grader writes nothing, so there the arrays may be shared.\<close>

lemma gradeUnits_copy_returns:
  assumes "\<forall>uo\<in>set uos. store (breakPointsRef uo) \<noteq> [] \<and>
             (\<exists>locs. map_throwing extractLocationInformation (unitLocations uo) = Inr locs)"
  shows "gradeUnits gradeMutationUnit_copy store uos r =
           Inr (map (\<lambda>uo. fst (projr (gradeMutationUnit_copy (readUnit store uo) r))) uos, store) \<and>
         (\<forall>uo\<in>set uos. \<exists>t. gradeMutationUnit_copy (readUnit store uo) r = Inr (t, readUnit store uo))"
  using assms
proof (induction uos)
  case Nil
  then show ?case by simp
next
  case (Cons uo rest)
  let ?u = "readUnit store uo"
  from Cons.prems obtain locs where
    l: "map_throwing extractLocationInformation (locations ?u) = Inr locs"
    and ne: "breakPoints ?u \<noteq> []"
    by (auto simp: readUnit_def)
  from gradeMutationUnit_copy_returns[OF l ne, of r] obtain t where
    g: "gradeMutationUnit_copy ?u r = Inr (t, ?u)"
    by blast
  have same: "store(breakPointsRef uo := breakPoints ?u) = store"
    by (simp add: readUnit_def)
  have "\<forall>x\<in>set rest. store (breakPointsRef x) \<noteq> [] \<and>
             (\<exists>locs. map_throwing extractLocationInformation (unitLocations x) = Inr locs)"
    using Cons.prems by auto
  from Cons.IH[OF this] show ?case using g same by simp
qed

text \<open>
  The configuration that lists one unit twice: the second call of
  \<^verbatim>\<open>src/src/main.ts\<close> scans the table that the first call left reversed, lowest threshold
  last, and scores \<open>0\<close>; the copy in \<^verbatim>\<open>src/unnamed/part_001\<close> grades both entries alike.
\<close>

lemma gradeStrykerResults_shared_table:
  "map_sum id (map (\<lambda>t. (TestResult.score t, TestResult.output t)) \<circ> the \<circ> tests \<circ> fst)
     (gradeStrykerResults schemaShared reportU) =
     Inr [(5, ''Faults detected: 4/0''), (0, ''Faults detected: 4/6'')]"
  "map_sum id (map (\<lambda>t. (TestResult.score t, TestResult.output t)) \<circ> the \<circ> tests \<circ> fst)
     (gradeStrykerResults_copy schemaShared reportU) =
     Inr [(5, ''Faults detected: 4/6''), (5, ''Faults detected: 4/6'')]"
  by code_simp+

lemma unitColumn_throws:
  "map_throwing extractLocationInformation (locations unitColumn) = Inl UnsupportedLocationFormat"
  by code_simp

section \<open>Facts about the detected count\<close>

lemma find_neq_None_iff: "find P xs \<noteq> None \<longleftrightarrow> (\<exists>x\<in>set xs. P x)"
  by (simp add: find_None_iff_all)

lemma mutatedFileContainsAGradedUnit_iff:
  "mutatedFileContainsAGradedUnit locs file \<longleftrightarrow>
     (\<exists>l\<in>set locs. \<exists>pre post. file = pre @ fileName l @ post)"
  unfolding mutatedFileContainsAGradedUnit_def find_neq_None_iff str_includes_iff ..

lemma in_range_iff:
  "num_le lo x \<and> num_ge hi x \<longleftrightarrow>
     (lo = NegativeInfinity \<or> (\<exists>a. lo = Finite a \<and> a \<le> x)) \<and>
     (hi = PositiveInfinity \<or> (\<exists>b. hi = Finite b \<and> x \<le> b))"
  by (cases lo; cases hi) (simp_all add: num_le_def num_ge_def)

lemma mutantContainsThisGradedUnit_iff:
  "mutantContainsThisGradedUnit locs m \<longleftrightarrow>
     (\<exists>l\<in>set locs.
        (startLine l = NegativeInfinity \<or>
         (\<exists>a. startLine l = Finite a \<and> a \<le> line (start (location m)))) \<and>
        (endLine l = PositiveInfinity \<or>
         (\<exists>b. endLine l = Finite b \<and> line (start (location m)) \<le> b)))"
  unfolding mutantContainsThisGradedUnit_def find_neq_None_iff in_range_iff ..

lemma foldl_count:
  "foldl (\<lambda>n x. if P x then n + 1 else n) (a::nat) xs = a + length (filter P xs)"
  by (induction xs arbitrary: a) auto

lemma foldl_sum:
  "foldl (\<lambda>acc x. acc + g x) (a::nat) xs = a + sum_list (map g xs)"
  by (induction xs arbitrary: a) auto

lemma mutantsFoundInFile_count:
  "mutantsFoundInFile locs fr =
     length (filter (\<lambda>m. mutantContainsThisGradedUnit locs m \<and> status m = ''Killed'')
               (mutants fr))"
  unfolding mutantsFoundInFile_def foldl_count
  by (simp add: conj_commute)

lemma Object_get_keys:
  assumes "distinct (map fst obj)" "(k, v) \<in> set obj"
  shows "Object_get obj k = v"
  using assms by (simp add: Object_get_def)

lemma Object_keys_defined: "k \<in> set (Object_keys obj) \<Longrightarrow> map_of obj k \<noteq> None"
  by (simp add: Object_keys_def map_of_eq_None_iff)

lemma count_per_file:
  "sum_list (map (\<lambda>(f, fr). length (filter PM (mutants fr))) (filter (\<lambda>(f, fr). PF f) fs)) =
   length (filter (\<lambda>(f, m). PF f \<and> PM m)
             (concat (map (\<lambda>(f, fr). map (Pair f) (mutants fr)) fs)))"
proof (induction fs)
  case Nil
  then show ?case by simp
next
  case (Cons x fs)
  obtain f fr where x: "x = (f, fr)" by (cases x)
  have "length (filter (\<lambda>(f, m). PF f \<and> PM m) (map (Pair f) (mutants fr))) =
        (if PF f then length (filter PM (mutants fr)) else 0)"
    by (simp add: filter_map comp_def)
  then show ?case using Cons.IH x by simp
qed

lemma mutantsDetected_sum:
  assumes "distinct (map fst (files r))"
  shows "mutantsDetected locs r =
     sum_list (map (\<lambda>(f, fr). mutantsFoundInFile locs fr)
                 (filter (\<lambda>(f, fr). mutatedFileContainsAGradedUnit locs f) (files r)))"
proof -
  have "map (\<lambda>file. mutantsFoundInFile locs (Object_get (files r) file))
            (filter (mutatedFileContainsAGradedUnit locs) (map fst (files r))) =
        map (\<lambda>x. mutantsFoundInFile locs (Object_get (files r) (fst x)))
            (filter (\<lambda>x. mutatedFileContainsAGradedUnit locs (fst x)) (files r))"
    by (simp add: filter_map comp_def)
  also have "\<dots> = map (\<lambda>(f, fr). mutantsFoundInFile locs fr)
                     (filter (\<lambda>(f, fr). mutatedFileContainsAGradedUnit locs f) (files r))"
  proof -
    have "mutantsFoundInFile locs (Object_get (files r) (fst x)) =
          (case x of (f, fr) \<Rightarrow> mutantsFoundInFile locs fr)"
      if "x \<in> set (files r)" for x
      using Object_get_keys[OF assms, of "fst x" "snd x"] that by (cases x) simp
    then show ?thesis by (auto simp: case_prod_unfold intro!: map_cong)
  qed
  finally show ?thesis
    unfolding mutantsDetected_def Object_keys_def foldl_sum by simp
qed

text \<open>The local \<^verbatim>\<open>mutantsDetected\<close> of the grader counts the mutants of the report.\<close>

lemma mutantsDetected_counts:
  assumes "distinct (map fst (files r))"
  shows "mutantsDetected locs r =
     length (filter
       (\<lambda>(file, mutant).
          (\<exists>l\<in>set locs. \<exists>pre post. file = pre @ fileName l @ post) \<and>
          (\<exists>l\<in>set locs.
             (startLine l = NegativeInfinity \<or>
              (\<exists>a. startLine l = Finite a \<and> a \<le> line (start (location mutant)))) \<and>
             (endLine l = PositiveInfinity \<or>
              (\<exists>b. endLine l = Finite b \<and> line (start (location mutant)) \<le> b))) \<and>
          status mutant = ''Killed'')
       (mutantsOfReport r))"
proof -
  have "mutantsDetected locs r =
     sum_list (map (\<lambda>(f, fr). length (filter (\<lambda>m. mutantContainsThisGradedUnit locs m \<and>
                                              status m = ''Killed'') (mutants fr)))
                 (filter (\<lambda>(f, fr). mutatedFileContainsAGradedUnit locs f) (files r)))"
    unfolding mutantsDetected_sum[OF assms] mutantsFoundInFile_count ..
  also have "\<dots> = length (filter (\<lambda>(f, m). mutatedFileContainsAGradedUnit locs f \<and>
                         (mutantContainsThisGradedUnit locs m \<and> status m = ''Killed''))
                       (mutantsOfReport r))"
    unfolding mutantsOfReport_def by (rule count_per_file)
  finally show ?thesis
    unfolding mutatedFileContainsAGradedUnit_iff mutantContainsThisGradedUnit_iff .
qed

section \<open>The location parser\<close>

text \<open>
  Claim C5, as stated, fails. The line numbers are doubles: \<^verbatim>\<open>parseInt\<close> rounds the digits
  of \<open>9007199254740993 = 2 ^ 53 + 1\<close> to \<open>9007199254740992\<close>, so \<^verbatim>\<open>foo.ts:9007199254740993\<close>
  does not parse to the line number that is written.
\<close>

theorem extractLocationInformation_rounds_counterexample:
  "''foo.ts:9007199254740993'' = ''foo.ts'' @ '':'' @ string_of_nat 9007199254740993 \<and>
   extractLocationInformation ''foo.ts:9007199254740993'' =
     Inr \<lparr>fileName = ''foo.ts'', startLine = Finite 9007199254740992,
          endLine = Finite 9007199254740992\<rparr> \<and>
   (9007199254740992 :: int) \<noteq> 9007199254740993"
proof -
  have "extractLocationInformation ''foo.ts:9007199254740993'' =
     Inr \<lparr>fileName = ''foo.ts'', startLine = Finite 9007199254740992,
          endLine = Finite 9007199254740992\<rparr>"
    by code_simp
  then show ?thesis by (simp add: string_of_nat_big)
qed

text \<open>
  Claim C5, amended. For a file name without \<^verbatim>\<open>:\<close> and line numbers below \<open>2 ^ 53\<close> written
  in decimal, the parser returns the file name with \<open>startLine = endLine = n\<close> on
  \<^verbatim>\<open><fileName>:<n>\<close>, and with \<open>startLine = a\<close>, \<open>endLine = b\<close> on \<^verbatim>\<open><fileName>:<a>-<b>\<close>; every
  string with two or more \<^verbatim>\<open>:\<close> is refused with \<open>UnsupportedLocationFormat\<close>.
\<close>

theorem extractLocationInformation_spec:
  "(CHR '':'' \<notin> set f \<and> n < 2 ^ 53 \<longrightarrow>
      extractLocationInformation (f @ '':'' @ string_of_nat n) =
        Inr \<lparr>fileName = f, startLine = Finite (int n), endLine = Finite (int n)\<rparr>) \<and>
   (CHR '':'' \<notin> set f \<and> a < 2 ^ 53 \<and> b < 2 ^ 53 \<longrightarrow>
      extractLocationInformation (f @ '':'' @ string_of_nat a @ ''-'' @ string_of_nat b) =
        Inr \<lparr>fileName = f, startLine = Finite (int a), endLine = Finite (int b)\<rparr>) \<and>
   (2 \<le> length (filter (\<lambda>c. c = CHR '':'') s) \<longrightarrow>
      extractLocationInformation s = Inl UnsupportedLocationFormat)"
proof (intro conjI impI)
  assume h: "CHR '':'' \<notin> set f \<and> n < 2 ^ 53"
  then have "int n < 2 ^ 53" by (metis of_nat_less_iff of_nat_numeral of_nat_power)
  then have e: "toDouble (int n) = Finite (int n)" by (rule toDouble_exact)
  show "extractLocationInformation (f @ '':'' @ string_of_nat n) =
        Inr \<lparr>fileName = f, startLine = Finite (int n), endLine = Finite (int n)\<rparr>"
    using h extractLocationInformation_single[of f n] by (simp add: e)
next
  assume h: "CHR '':'' \<notin> set f \<and> a < 2 ^ 53 \<and> b < 2 ^ 53"
  then have "int a < 2 ^ 53" "int b < 2 ^ 53"
    by (metis of_nat_less_iff of_nat_numeral of_nat_power)+
  then have e: "toDouble (int a) = Finite (int a)" "toDouble (int b) = Finite (int b)"
    by (simp_all add: toDouble_exact)
  show "extractLocationInformation (f @ '':'' @ string_of_nat a @ ''-'' @ string_of_nat b) =
        Inr \<lparr>fileName = f, startLine = Finite (int a), endLine = Finite (int b)\<rparr>"
    using h extractLocationInformation_range[of f a b] by (simp add: e)
next
  assume "2 \<le> length (filter (\<lambda>c. c = CHR '':'') s)"
  then have "length (str_split CHR '':'' s) > 2" by (simp add: length_str_split)
  then show "extractLocationInformation s = Inl UnsupportedLocationFormat"
    by (simp add: extractLocationInformation_def)
qed

theorem extractLocationInformation_spec_witness:
  "CHR '':'' \<notin> set ''a/b.ts'' \<and> (10::nat) < 2 ^ 53 \<and> (20::nat) < 2 ^ 53 \<and>
   extractLocationInformation ''a/b.ts:10'' =
     Inr \<lparr>fileName = ''a/b.ts'', startLine = Finite 10, endLine = Finite 10\<rparr> \<and>
   extractLocationInformation ''a/b.ts:10-20'' =
     Inr \<lparr>fileName = ''a/b.ts'', startLine = Finite 10, endLine = Finite 20\<rparr> \<and>
   2 \<le> length (filter (\<lambda>c. c = CHR '':'') ''a/b.ts:10:2'') \<and>
   extractLocationInformation ''a/b.ts:10:2'' = Inl UnsupportedLocationFormat"
proof -
  have n10: "string_of_nat 10 = ''10''" by code_simp
  have n20: "string_of_nat 20 = ''20''" by code_simp
  show ?thesis
    using extractLocationInformation_spec [of "''a/b.ts''" 10 10 20 "''a/b.ts:10:2''"]
    by (simp add: n10 n20)
qed

section \<open>The configuration validator\<close>




section \<open>Breakpoint resolution\<close>

text \<open>
  Claim C1. For a unit with a non-empty breakpoint table whose thresholds are strictly
  ascending and whose locations parse, \<open>gradeMutationUnit\<close> returns, and with \<open>d\<close> the
  detected count its score is the \<open>pointsToAward\<close> of the breakpoint with the highest
  threshold among those with \<open>minimumMutantsDetected \<le> d\<close>, and \<open>0\<close> when \<open>d\<close> is below every
  threshold; a count equal to a threshold awards that breakpoint's points. The copy of the
  grader in \<^verbatim>\<open>src/unnamed/part_001\<close> returns the same score.
\<close>

theorem gradeMutationUnit_score:
  assumes "breakPoints u \<noteq> []"
      and "sorted_wrt (<) (map minimumMutantsDetected (breakPoints u))"
      and "map_throwing extractLocationInformation (locations u) = Inr locs"
  shows "\<exists>t u' t2 u2.
           gradeMutationUnit u r = Inr (t, u') \<and>
           gradeMutationUnit_copy u r = Inr (t2, u2) \<and>
           TestResult.score t2 = TestResult.score t \<and>
           (\<forall>bp\<in>set (breakPoints u).
              minimumMutantsDetected bp \<le> int (mutantsDetected locs r) \<and>
              (\<forall>bp'\<in>set (breakPoints u).
                 minimumMutantsDetected bp' \<le> int (mutantsDetected locs r) \<longrightarrow>
                 minimumMutantsDetected bp' \<le> minimumMutantsDetected bp) \<longrightarrow>
              TestResult.score t = pointsToAward bp) \<and>
           ((\<forall>bp\<in>set (breakPoints u). int (mutantsDetected locs r) < minimumMutantsDetected bp) \<longrightarrow>
              TestResult.score t = 0) \<and>
           (\<forall>bp\<in>set (breakPoints u).
              minimumMutantsDetected bp = int (mutantsDetected locs r) \<longrightarrow>
              TestResult.score t = pointsToAward bp)"
  using gradeMutationUnit_returns[OF assms(3,1), of r]
        gradeMutationUnit_copy_returns[OF assms(3,1), of r]
        scan_score[OF assms(2), of "int (mutantsDetected locs r)"]
  by simp

theorem gradeMutationUnit_score_witness:
  "breakPoints unitU \<noteq> [] \<and>
   sorted_wrt (<) (map minimumMutantsDetected (breakPoints unitU)) \<and>
   map_throwing extractLocationInformation (locations unitU) = Inr [rangeFoo] \<and>
   (\<exists>t u'. gradeMutationUnit unitU reportU = Inr (t, u') \<and> TestResult.score t = 5)"
proof -
  have h1: "breakPoints unitU \<noteq> []" by (simp add: unitU_def mkUnit_def)
  have h2: "sorted_wrt (<) (map minimumMutantsDetected (breakPoints unitU))"
    by (simp add: unitU_def mkUnit_def mkBreakPoint_def)
  have in3: "mkBreakPoint 3 5 \<in> set (breakPoints unitU)" by (simp add: unitU_def mkUnit_def)
  have hi: "minimumMutantsDetected (mkBreakPoint 3 5) \<le> 4 \<and>
            (\<forall>bp'\<in>set (breakPoints unitU). minimumMutantsDetected bp' \<le> 4 \<longrightarrow>
               minimumMutantsDetected bp' \<le> minimumMutantsDetected (mkBreakPoint 3 5))"
    by (simp add: unitU_def mkUnit_def mkBreakPoint_def)
  have p: "pointsToAward (mkBreakPoint 3 5) = 5" by (simp add: mkBreakPoint_def)
  show ?thesis
    using gradeMutationUnit_score [OF h1 h2 unitU_locations, of reportU] h1 h2 unitU_locations
      in3 hi p
    by (auto simp: reportU_detected)
qed

section \<open>Monotonicity of the score\<close>

text \<open>
  Claim C3, as stated, fails. \<open>validateConfig\<close> orders the thresholds only: the table
  \<open>[{0, 10}, {5, 5}]\<close> passes it, and there a count of \<open>0\<close> scores \<open>10\<close> while a count of \<open>5\<close>
  scores \<open>5\<close>, in both copies of the grader.
\<close>

theorem score_monotone_counterexample:
  "validateConfig (mkConfig [unitDecreasingPoints]) = Inr () \<and>
   map_throwing extractLocationInformation (locations unitDecreasingPoints) = Inr [rangeFoo] \<and>
   mutantsDetected [rangeFoo] reportEmpty = 0 \<and>
   mutantsDetected [rangeFoo] reportFiveKilled = 5 \<and>
   map_sum id (TestResult.score \<circ> fst) (gradeMutationUnit unitDecreasingPoints reportEmpty) = Inr 10 \<and>
   map_sum id (TestResult.score \<circ> fst) (gradeMutationUnit unitDecreasingPoints reportFiveKilled) = Inr 5 \<and>
   map_sum id (TestResult.score \<circ> fst) (gradeMutationUnit_copy unitDecreasingPoints reportEmpty) = Inr 10 \<and>
   map_sum id (TestResult.score \<circ> fst) (gradeMutationUnit_copy unitDecreasingPoints reportFiveKilled) = Inr 5 \<and>
   \<not> ((10::int) \<le> 5)"
  by code_simp

text \<open>
  Claim C3, amended. For a unit of a configuration that passes \<open>validateConfig\<close>, whose
  breakpoint table is non-empty and whose \<open>pointsToAward\<close> values are non-negative and
  non-decreasing in declared order, the score is a non-decreasing function of the detected
  count: a report with at least as many detected mutants scores at least as much.
\<close>

theorem gradeMutationUnit_score_monotone:
  assumes "validateConfig config = Inr ()"
      and "u \<in> set (gradedUnits config)"
      and "breakPoints u \<noteq> []"
      and "sorted (map pointsToAward (breakPoints u))"
      and "\<forall>bp\<in>set (breakPoints u). 0 \<le> pointsToAward bp"
      and "map_throwing extractLocationInformation (locations u) = Inr locs"
      and "mutantsDetected locs r1 \<le> mutantsDetected locs r2"
  shows "\<exists>t1 u1 t2 u2 c1 v1 c2 v2.
           gradeMutationUnit u r1 = Inr (t1, u1) \<and> gradeMutationUnit u r2 = Inr (t2, u2) \<and>
           TestResult.score t1 \<le> TestResult.score t2 \<and>
           gradeMutationUnit_copy u r1 = Inr (c1, v1) \<and> gradeMutationUnit_copy u r2 = Inr (c2, v2) \<and>
           TestResult.score c1 \<le> TestResult.score c2"
proof -
  have asc: "sorted_wrt (<) (map minimumMutantsDetected (breakPoints u))"
    using validated_ascending[OF assms(1,2)] .
  have le: "int (mutantsDetected locs r1) \<le> int (mutantsDetected locs r2)"
    using assms(7) by simp
  show ?thesis
    using gradeMutationUnit_returns[OF assms(6,3), of r1]
          gradeMutationUnit_returns[OF assms(6,3), of r2]
          gradeMutationUnit_copy_returns[OF assms(6,3), of r1]
          gradeMutationUnit_copy_returns[OF assms(6,3), of r2]
          scan_monotone[OF asc assms(4,5) le]
    by simp
qed

theorem gradeMutationUnit_score_monotone_witness:
  "validateConfig (mkConfig [unitU]) = Inr () \<and>
   unitU \<in> set (gradedUnits (mkConfig [unitU])) \<and>
   breakPoints unitU \<noteq> [] \<and>
   sorted (map pointsToAward (breakPoints unitU)) \<and>
   list_all (\<lambda>bp. 0 \<le> pointsToAward bp) (breakPoints unitU) \<and>
   map_throwing extractLocationInformation (locations unitU) = Inr [rangeFoo] \<and>
   mutantsDetected [rangeFoo] reportU \<le> mutantsDetected [rangeFoo] reportFiveKilled \<and>
   (\<exists>t1 u1 t2 u2.
      gradeMutationUnit unitU reportU = Inr (t1, u1) \<and>
      gradeMutationUnit unitU reportFiveKilled = Inr (t2, u2) \<and>
      TestResult.score t1 \<le> TestResult.score t2)"
proof -
  have h1: "validateConfig (mkConfig [unitU]) = Inr ()" by code_simp
  have h2: "unitU \<in> set (gradedUnits (mkConfig [unitU]))" by (simp add: mkConfig_def)
  have h3: "breakPoints unitU \<noteq> []" by (simp add: unitU_def mkUnit_def)
  have h4: "sorted (map pointsToAward (breakPoints unitU))"
    by (simp add: unitU_def mkUnit_def mkBreakPoint_def)
  have h5: "\<forall>bp\<in>set (breakPoints unitU). 0 \<le> pointsToAward bp"
    by (simp add: unitU_def mkUnit_def mkBreakPoint_def)
  have h7: "mutantsDetected [rangeFoo] reportU \<le> mutantsDetected [rangeFoo] reportFiveKilled"
    by code_simp
  show ?thesis
    using gradeMutationUnit_score_monotone [OF h1 h2 h3 h4 h5 unitU_locations h7]
      h1 h2 h3 h4 h5 h7 unitU_locations
    unfolding list_all_iff by blast
qed

section \<open>The maximum score\<close>

text \<open>
  Claim C8. For a unit with a non-empty breakpoint table whose locations parse,
  \<open>gradeMutationUnit\<close> returns and the \<open>max_score\<close> of its result is the maximum of
  \<open>pointsToAward\<close> over all breakpoints of the unit, whatever the order of the point values;
  the same holds for the copy of the grader.
\<close>

theorem gradeMutationUnit_max_score:
  assumes "breakPoints u \<noteq> []"
      and "map_throwing extractLocationInformation (locations u) = Inr locs"
  shows "\<exists>t u' c v.
           gradeMutationUnit u r = Inr (t, u') \<and>
           gradeMutationUnit_copy u r = Inr (c, v) \<and>
           max_score t = Num (Max (pointsToAward ` set (breakPoints u))) \<and>
           max_score c = Num (Max (pointsToAward ` set (breakPoints u)))"
  using gradeMutationUnit_returns[OF assms(2,1), of r]
        gradeMutationUnit_copy_returns[OF assms(2,1), of r]
        Math_max_nonempty[of "map pointsToAward (breakPoints u)"] assms(1)
  by simp

theorem gradeMutationUnit_max_score_witness:
  "breakPoints unitDecreasingPoints \<noteq> [] \<and>
   map_throwing extractLocationInformation (locations unitDecreasingPoints) = Inr [rangeFoo] \<and>
   (\<exists>t u'. gradeMutationUnit unitDecreasingPoints reportU = Inr (t, u') \<and> max_score t = Num 10) \<and>
   pointsToAward (last (breakPoints unitDecreasingPoints)) = 5"
proof -
  have h1: "breakPoints unitDecreasingPoints \<noteq> []"
    by (simp add: unitDecreasingPoints_def mkUnit_def)
  have m: "Max (pointsToAward ` set (breakPoints unitDecreasingPoints)) = 10"
    by (simp add: unitDecreasingPoints_def mkUnit_def mkBreakPoint_def)
  have l: "pointsToAward (last (breakPoints unitDecreasingPoints)) = 5"
    by (simp add: unitDecreasingPoints_def mkUnit_def mkBreakPoint_def)
  show ?thesis
    using gradeMutationUnit_max_score [OF h1 unitDecreasingPoints_locations, of reportU]
      h1 unitDecreasingPoints_locations l
    by (auto simp: m)
qed

section \<open>The summary string and the stored table\<close>

text \<open>
  Claim C6 says that the summary reports the detected count against the threshold of the
  last declared breakpoint. On the end-to-end scenario of the specification (thresholds \<open>0\<close>,
  \<open>3\<close>, \<open>6\<close>, four mutants killed) \<open>gradeMutationUnit\<close> of \<^verbatim>\<open>src/src/main.ts\<close> reads the last
  element after the in-place reversal and reports \<^verbatim>\<open>4/0\<close>; the copy in
  \<^verbatim>\<open>src/unnamed/part_001\<close> reports \<^verbatim>\<open>4/6\<close>.
\<close>

theorem gradeMutationUnit_summary_reads_reversed_table:
  "map_sum id (TestResult.output \<circ> fst) (gradeMutationUnit unitU reportU) =
     Inr ''Faults detected: 4/0'' \<and>
   map_sum id (TestResult.output \<circ> fst) (gradeMutationUnit_copy unitU reportU) =
     Inr ''Faults detected: 4/6'' \<and>
   minimumMutantsDetected (last (breakPoints unitU)) = 6"
  by code_simp

text \<open>
  Claim C7 says that grading leaves the stored breakpoint sequence of the unit unchanged.
  On the same scenario \<open>gradeMutationUnit\<close> of \<^verbatim>\<open>src/src/main.ts\<close> leaves the table of the
  unit reversed; the copy in \<^verbatim>\<open>src/unnamed/part_001\<close> leaves the unit as it was.
\<close>

theorem gradeMutationUnit_reverses_stored_table:
  "map_sum id (breakPoints \<circ> snd) (gradeMutationUnit unitU reportU) =
     Inr [mkBreakPoint 6 10, mkBreakPoint 3 5, mkBreakPoint 0 0] \<and>
   breakPoints unitU = [mkBreakPoint 0 0, mkBreakPoint 3 5, mkBreakPoint 6 10] \<and>
   map_sum id snd (gradeMutationUnit_copy unitU reportU) = Inr unitU"
  by code_simp

section \<open>Units without breakpoints\<close>

text \<open>
  Claim C10. A unit with an empty \<open>breakPoints\<close> list does not change the verdict of
  \<open>validateConfig\<close>, which accepts a configuration made of such a unit; for it the maximum
  is taken over no value (\<^verbatim>\<open>-Infinity\<close>), and the read of the last element, on the stored
  table or on the reversed one, is in bounds if and only if the list is non-empty. When
  the locations parse, \<open>gradeMutationUnit\<close> (either copy) fails with a \<open>TypeError\<close> exactly
  when the list is empty.
\<close>

theorem empty_breakPoints_unsafe:
  "(breakPoints u = [] \<longrightarrow>
      validateConfig (config\<lparr>gradedUnits := us @ u # vs\<rparr>) =
      validateConfig (config\<lparr>gradedUnits := us @ vs\<rparr>)) \<and>
   (breakPoints u = [] \<longrightarrow> validateConfig (config\<lparr>gradedUnits := [u]\<rparr>) = Inr ()) \<and>
   (Math_max (map pointsToAward (breakPoints u)) = NegInfinity \<longleftrightarrow> breakPoints u = []) \<and>
   (at_index (breakPoints u) (int (length (breakPoints u)) - 1) \<noteq> None \<longleftrightarrow>
      breakPoints u \<noteq> []) \<and>
   (at_index (rev (breakPoints u)) (int (length (rev (breakPoints u))) - 1) \<noteq> None \<longleftrightarrow>
      breakPoints u \<noteq> []) \<and>
   (map_throwing extractLocationInformation (locations u) = Inr locs \<longrightarrow>
      (gradeMutationUnit u r = Inl TypeError \<longleftrightarrow> breakPoints u = []) \<and>
      (gradeMutationUnit_copy u r = Inl TypeError \<longleftrightarrow> breakPoints u = []))"
proof (intro conjI impI)
  assume e: "breakPoints u = []"
  have "validateUnits (us @ u # vs) = validateUnits (us @ vs)"
    using e by (induction us) auto
  then show "validateConfig (config\<lparr>gradedUnits := us @ u # vs\<rparr>) =
      validateConfig (config\<lparr>gradedUnits := us @ vs\<rparr>)"
    by (simp add: validateConfig_def)
next
  assume "breakPoints u = []"
  then show "validateConfig (config\<lparr>gradedUnits := [u]\<rparr>) = Inr ()"
    by (simp add: validateConfig_def)
next
  show "Math_max (map pointsToAward (breakPoints u)) = NegInfinity \<longleftrightarrow> breakPoints u = []"
    by (simp add: Math_max_NegInfinity)
next
  show "at_index (breakPoints u) (int (length (breakPoints u)) - 1) \<noteq> None \<longleftrightarrow>
      breakPoints u \<noteq> []"
    by (rule at_index_last_iff)
next
  show "at_index (rev (breakPoints u)) (int (length (rev (breakPoints u))) - 1) \<noteq> None \<longleftrightarrow>
      breakPoints u \<noteq> []"
    using at_index_last_iff[of "rev (breakPoints u)"] by simp
next
  assume l: "map_throwing extractLocationInformation (locations u) = Inr locs"
  show "gradeMutationUnit u r = Inl TypeError \<longleftrightarrow> breakPoints u = []"
  proof (cases "breakPoints u = []")
    case True
    then show ?thesis using l by (simp add: gradeMutationUnit_def at_index_def)
  next
    case False
    then show ?thesis using gradeMutationUnit_returns[OF l False, of r] by simp
  qed
next
  assume l: "map_throwing extractLocationInformation (locations u) = Inr locs"
  show "gradeMutationUnit_copy u r = Inl TypeError \<longleftrightarrow> breakPoints u = []"
  proof (cases "breakPoints u = []")
    case True
    then show ?thesis using l by (simp add: gradeMutationUnit_copy_def at_index_def)
  next
    case False
    then show ?thesis using gradeMutationUnit_copy_returns[OF l False, of r] by simp
  qed
qed

theorem empty_breakPoints_unsafe_witness:
  "breakPoints unitNoBreakPoints = [] \<and>
   map_throwing extractLocationInformation (locations unitNoBreakPoints) = Inr [rangeFoo] \<and>
   validateConfig (mkConfig [unitU, unitNoBreakPoints]) = Inr () \<and>
   Math_max (map pointsToAward (breakPoints unitNoBreakPoints)) = NegInfinity \<and>
   at_index (breakPoints unitNoBreakPoints) (int (length (breakPoints unitNoBreakPoints)) - 1) = None \<and>
   gradeMutationUnit unitNoBreakPoints reportU = Inl TypeError \<and>
   gradeMutationUnit_copy unitNoBreakPoints reportU = Inl TypeError"
proof -
  have e: "breakPoints unitNoBreakPoints = []" by (simp add: unitNoBreakPoints_def mkUnit_def)
  have v: "validateConfig (mkConfig [unitU]) = Inr ()" by code_simp
  have c: "(mkConfig [unitU])\<lparr>gradedUnits := [unitU] @ unitNoBreakPoints # []\<rparr> =
             mkConfig [unitU, unitNoBreakPoints]"
          "(mkConfig [unitU])\<lparr>gradedUnits := [unitU] @ []\<rparr> = mkConfig [unitU]"
    by (simp_all add: mkConfig_def)
  show ?thesis
    using empty_breakPoints_unsafe [where u = unitNoBreakPoints and config = "mkConfig [unitU]"
        and us = "[unitU]" and vs = "[]" and locs = "[rangeFoo]" and r = reportU]
      e v unitNoBreakPoints_locations
    unfolding c by auto
qed

section \<open>The report aggregator\<close>

text \<open>
  Claim C9, as stated, fails. \<open>validateConfig\<close> orders the thresholds and checks nothing
  else: a configuration with a unit that has no breakpoint passes it, and
  \<open>gradeStrykerResults\<close> then ends with the \<open>TypeError\<close> of that unit and returns no
  \<open>TestResult\<close> at all; a configuration with the location \<^verbatim>\<open>a/b.ts:10:2\<close> passes it as well,
  and the exception of \<open>extractLocationInformation\<close> ends the grading in the same way.
\<close>

theorem gradeStrykerResults_counterexample:
  "validateConfig (schemaValue (freshSchema [unitU, unitNoBreakPoints])) = Inr () \<and>
   map_sum id (tests \<circ> fst) (gradeStrykerResults (freshSchema [unitU, unitNoBreakPoints]) reportU)
     = Inl TypeError \<and>
   map_sum id (tests \<circ> fst) (gradeStrykerResults_copy (freshSchema [unitU, unitNoBreakPoints]) reportU)
     = Inl TypeError \<and>
   validateConfig (schemaValue (freshSchema [unitU, unitColumn])) = Inr () \<and>
   map_sum id (tests \<circ> fst) (gradeStrykerResults (freshSchema [unitU, unitColumn]) reportU)
     = Inl UnsupportedLocationFormat \<and>
   map_sum id (tests \<circ> fst) (gradeStrykerResults_copy (freshSchema [unitU, unitColumn]) reportU)
     = Inl UnsupportedLocationFormat"
  by code_simp

text \<open>
  Claim C9, amended. For a validated configuration in which every unit has at least one
  breakpoint and locations that parse, and in which no two entries of \<^verbatim>\<open>gradedUnits\<close> share
  a \<^verbatim>\<open>breakPoints\<close> array, \<open>gradeStrykerResults\<close> returns one \<open>TestResult\<close> per entry, in the
  declared order, and the result at each position is the result of \<open>gradeMutationUnit\<close>
  on the unit declared at that position, as the configuration was before grading. For
  the copy in \<^verbatim>\<open>src/unnamed/part_001\<close> the same holds whether arrays are shared or not.
  What \<^verbatim>\<open>src/src/main.ts\<close> returns on entries that share an array is left to
  \<open>gradeStrykerResults_shared_table\<close>.
\<close>

theorem gradeStrykerResults_per_unit:
  assumes "validateConfig (schemaValue schema) = Inr ()"
      and "\<forall>uo\<in>set (unitObjects schema).
             arrays schema (breakPointsRef uo) \<noteq> [] \<and>
             (\<exists>locs. map_throwing extractLocationInformation (unitLocations uo) = Inr locs)"
  shows "(distinct (map breakPointsRef (unitObjects schema)) \<longrightarrow>
          (\<exists>out schema' ts.
             gradeStrykerResults schema r = Inr (out, schema') \<and>
             tests out = Some ts \<and> length ts = length (unitObjects schema) \<and>
             (\<forall>i<length (unitObjects schema).
                \<exists>u'. gradeMutationUnit (readUnit (arrays schema) (unitObjects schema ! i)) r =
                       Inr (ts ! i, u')))) \<and>
         (\<exists>out schema' ts.
            gradeStrykerResults_copy schema r = Inr (out, schema') \<and>
            tests out = Some ts \<and> length ts = length (unitObjects schema) \<and>
            (\<forall>i<length (unitObjects schema).
               \<exists>u'. gradeMutationUnit_copy (readUnit (arrays schema) (unitObjects schema ! i)) r =
                      Inr (ts ! i, u')))"
proof (intro conjI impI)
  assume d: "distinct (map breakPointsRef (unitObjects schema))"
  from gradeUnits_returns[OF d assms(2), of r] obtain ts store' where
    g: "gradeUnits gradeMutationUnit (arrays schema) (unitObjects schema) r = Inr (ts, store')"
       "length ts = length (unitObjects schema)"
       "\<forall>i<length (unitObjects schema).
          \<exists>u'. gradeMutationUnit (readUnit (arrays schema) (unitObjects schema ! i)) r =
                 Inr (ts ! i, u')"
    by blast
  let ?out = "\<lparr>output = Some [], stdout_visibility = hidden, tests = Some ts, score = None\<rparr>"
  have "gradeStrykerResults schema r = Inr (?out, schema\<lparr>arrays := store'\<rparr>)"
    using g(1) by (simp add: gradeStrykerResults_def gradeResultsWith_def)
  moreover have "tests ?out = Some ts" by simp
  ultimately show "\<exists>out schema' ts.
             gradeStrykerResults schema r = Inr (out, schema') \<and>
             tests out = Some ts \<and> length ts = length (unitObjects schema) \<and>
             (\<forall>i<length (unitObjects schema).
                \<exists>u'. gradeMutationUnit (readUnit (arrays schema) (unitObjects schema ! i)) r =
                       Inr (ts ! i, u'))"
    using g(2,3) by blast
next
  let ?ts = "map (\<lambda>uo. fst (projr (gradeMutationUnit_copy (readUnit (arrays schema) uo) r)))
               (unitObjects schema)"
  from gradeUnits_copy_returns[OF assms(2), of r] have
    g: "gradeUnits gradeMutationUnit_copy (arrays schema) (unitObjects schema) r =
          Inr (?ts, arrays schema)"
    and each: "\<forall>uo\<in>set (unitObjects schema).
          \<exists>t. gradeMutationUnit_copy (readUnit (arrays schema) uo) r =
                Inr (t, readUnit (arrays schema) uo)"
    by blast+
  let ?out = "\<lparr>output = Some [], stdout_visibility = hidden, tests = Some ?ts, score = None\<rparr>"
  have run: "gradeStrykerResults_copy schema r = Inr (?out, schema\<lparr>arrays := arrays schema\<rparr>)"
    using g by (simp add: gradeStrykerResults_copy_def gradeResultsWith_def)
  have one: "\<exists>u'. gradeMutationUnit_copy (readUnit (arrays schema) (unitObjects schema ! i)) r =
                 Inr (?ts ! i, u')"
    if "i < length (unitObjects schema)" for i
  proof -
    have "unitObjects schema ! i \<in> set (unitObjects schema)" using that by simp
    with each obtain t where
      "gradeMutationUnit_copy (readUnit (arrays schema) (unitObjects schema ! i)) r =
         Inr (t, readUnit (arrays schema) (unitObjects schema ! i))"
      by blast
    then show ?thesis using that by simp
  qed
  have "tests ?out = Some ?ts" by simp
  moreover have "length ?ts = length (unitObjects schema)" by simp
  ultimately show "\<exists>out schema' ts.
            gradeStrykerResults_copy schema r = Inr (out, schema') \<and>
            tests out = Some ts \<and> length ts = length (unitObjects schema) \<and>
            (\<forall>i<length (unitObjects schema).
               \<exists>u'. gradeMutationUnit_copy (readUnit (arrays schema) (unitObjects schema ! i)) r =
                      Inr (ts ! i, u'))"
    using run one by blast
qed

theorem gradeStrykerResults_per_unit_witness:
  "validateConfig (schemaValue (freshSchema [unitU, unitDecreasingPoints])) = Inr () \<and>
   list_all (\<lambda>uo. arrays (freshSchema [unitU, unitDecreasingPoints]) (breakPointsRef uo) \<noteq> [] \<and>
               (\<exists>locs. map_throwing extractLocationInformation (unitLocations uo) = Inr locs))
     (unitObjects (freshSchema [unitU, unitDecreasingPoints])) \<and>
   distinct (map breakPointsRef (unitObjects (freshSchema [unitU, unitDecreasingPoints]))) \<and>
   (\<exists>out schema' ts.
      gradeStrykerResults (freshSchema [unitU, unitDecreasingPoints]) reportU = Inr (out, schema') \<and>
      tests out = Some ts \<and> length ts = 2)"
proof -
  have h1: "validateConfig (schemaValue (freshSchema [unitU, unitDecreasingPoints])) = Inr ()"
    by code_simp
  have lu: "\<exists>locs. map_throwing extractLocationInformation [''foo.ts:1-5''] = Inr locs"
    using unitU_locations by (simp add: unitU_def mkUnit_def)
  have h2: "\<forall>uo\<in>set (unitObjects (freshSchema [unitU, unitDecreasingPoints])).
      arrays (freshSchema [unitU, unitDecreasingPoints]) (breakPointsRef uo) \<noteq> [] \<and>
      (\<exists>locs. map_throwing extractLocationInformation (unitLocations uo) = Inr locs)"
    using lu by (simp add: freshSchema_def unitU_def unitDecreasingPoints_def mkUnit_def)
  have h3: "distinct (map breakPointsRef (unitObjects (freshSchema [unitU, unitDecreasingPoints])))"
    by (simp add: freshSchema_def)
  have l: "length (unitObjects (freshSchema [unitU, unitDecreasingPoints])) = 2"
    by (simp add: freshSchema_def)
  show ?thesis
    using gradeStrykerResults_per_unit [OF h1 h2, of reportU] h1 h2 h3
    unfolding l list_all_iff by blast
qed

section \<open>The detected count\<close>

text \<open>
  Claim C2. Let \<open>n\<close> be the number of mutants of the report such that the path of the
  mutant's file contains the \<open>fileName\<close> of some parsed location of the unit as a substring,
  the mutant's start line lies between \<open>startLine\<close> and \<open>endLine\<close> (both included) of some
  parsed location of the unit, not necessarily the same one, and the mutant's status is
  \<^verbatim>\<open>Killed\<close>. For a report whose \<^verbatim>\<open>files\<close> object has each path once and a unit with at least
  one breakpoint, \<open>gradeMutationUnit\<close> returns, \<open>n\<close> is the count that its summary reports,
  and its score is the one that the scan of the breakpoints awards for \<open>n\<close>; the same holds
  for the copy of the grader.
\<close>

theorem gradeMutationUnit_detected_count:
  fixes u :: GradedUnit and r :: MutationTestResult and locs :: "LocationRange list"
  defines "n \<equiv> length (filter
       (\<lambda>(file, mutant).
          (\<exists>l\<in>set locs. \<exists>pre post. file = pre @ fileName l @ post) \<and>
          (\<exists>l\<in>set locs.
             (startLine l = NegativeInfinity \<or>
              (\<exists>a. startLine l = Finite a \<and> a \<le> line (start (location mutant)))) \<and>
             (endLine l = PositiveInfinity \<or>
              (\<exists>b. endLine l = Finite b \<and> line (start (location mutant)) \<le> b))) \<and>
          status mutant = ''Killed'')
       (mutantsOfReport r))"
  assumes "map_throwing extractLocationInformation (locations u) = Inr locs"
      and "distinct (map fst (files r))"
      and "breakPoints u \<noteq> []"
  shows "\<exists>t u' c v.
           gradeMutationUnit u r = Inr (t, u') \<and>
           gradeMutationUnit_copy u r = Inr (c, v) \<and>
           TestResult.output t = summary n (minimumMutantsDetected (hd (breakPoints u))) \<and>
           TestResult.output c = summary n (minimumMutantsDetected (last (breakPoints u))) \<and>
           TestResult.score t =
             (case find (\<lambda>bp. minimumMutantsDetected bp \<le> int n) (rev (breakPoints u)) of
                Some bp \<Rightarrow> pointsToAward bp | None \<Rightarrow> 0) \<and>
           TestResult.score c = TestResult.score t"
proof -
  have n: "mutantsDetected locs r = n"
    unfolding n_def by (rule mutantsDetected_counts[OF assms(3)])
  show ?thesis
    using gradeMutationUnit_returns[OF assms(2,4), of r]
          gradeMutationUnit_copy_returns[OF assms(2,4), of r]
    by (simp add: n)
qed

theorem gradeMutationUnit_detected_count_witness:
  "map_throwing extractLocationInformation (locations unitU) = Inr [rangeFoo] \<and>
   distinct (map fst (files reportU)) \<and>
   breakPoints unitU \<noteq> [] \<and>
   length (filter
       (\<lambda>(file, mutant).
          (\<exists>l\<in>set [rangeFoo]. \<exists>pre post. file = pre @ fileName l @ post) \<and>
          (\<exists>l\<in>set [rangeFoo].
             (startLine l = NegativeInfinity \<or>
              (\<exists>a. startLine l = Finite a \<and> a \<le> line (start (location mutant)))) \<and>
             (endLine l = PositiveInfinity \<or>
              (\<exists>b. endLine l = Finite b \<and> line (start (location mutant)) \<le> b))) \<and>
          status mutant = ''Killed'')
       (mutantsOfReport reportU)) = 4 \<and>
   (\<exists>t u' c v.
      gradeMutationUnit unitU reportU = Inr (t, u') \<and>
      gradeMutationUnit_copy unitU reportU = Inr (c, v) \<and>
      TestResult.output t = summary 4 0 \<and>
      TestResult.output c = summary 4 6 \<and>
      TestResult.score t = 5 \<and> TestResult.score c = 5)"
proof -
  have d: "distinct (map fst (files reportU))" by (simp add: reportU_def mkReport_def)
  have ne: "breakPoints unitU \<noteq> []" by (simp add: unitU_def mkUnit_def)
  have four: "length (filter
       (\<lambda>(file, mutant).
          (\<exists>l\<in>set [rangeFoo]. \<exists>pre post. file = pre @ fileName l @ post) \<and>
          (\<exists>l\<in>set [rangeFoo].
             (startLine l = NegativeInfinity \<or>
              (\<exists>a. startLine l = Finite a \<and> a \<le> line (start (location mutant)))) \<and>
             (endLine l = PositiveInfinity \<or>
              (\<exists>b. endLine l = Finite b \<and> line (start (location mutant)) \<le> b))) \<and>
          status mutant = ''Killed'')
       (mutantsOfReport reportU)) = 4"
    using mutantsDetected_counts[OF d, of "[rangeFoo]"] reportU_detected by simp
  have hd: "minimumMutantsDetected (hd (breakPoints unitU)) = 0"
    and lst: "minimumMutantsDetected (last (breakPoints unitU)) = 6"
    and sc: "(case find (\<lambda>bp. minimumMutantsDetected bp \<le> int 4) (rev (breakPoints unitU)) of
                Some bp \<Rightarrow> pointsToAward bp | None \<Rightarrow> 0) = 5"
    by (simp_all add: unitU_def mkUnit_def mkBreakPoint_def)
  show ?thesis
    using gradeMutationUnit_detected_count [OF unitU_locations d ne]
    unfolding four hd lst sc using unitU_locations d ne by fastforce
qed

end
